theory Spec2Isabelle
  imports Main
begin

section \<open>JavaScript strings and the built-ins the handlers call\<close>

text \<open>
  A string of the program is modelled as a \<^typ>\<open>string\<close>, the character with number
  \<open>n\<close> standing for the code unit \<open>n\<close>: the model covers the strings whose code units are
  below 256. On these, \<open>\s\<close>, \<open>trim\<close> and the white space skipped by \<open>parseInt\<close> are the
  seven characters 9-13, 32 and 160, and \<open>toLowerCase\<close> moves \<open>A-Z\<close> and the capital
  letters 192-222 (215 is the multiplication sign) up by 32.
\<close>

definition isWhiteSpace :: "char \<Rightarrow> bool" where
  "isWhiteSpace c = ((of_char c :: nat) \<in> set [9, 10, 11, 12, 13, 32, 160])"

definition toLowerChar :: "char \<Rightarrow> char" where
  "toLowerChar c =
     (let n = (of_char c :: nat)
      in if (65 \<le> n \<and> n \<le> 90) \<or> (192 \<le> n \<and> n \<le> 222 \<and> n \<noteq> 215)
         then char_of (n + 32) else c)"

definition toLowerCase :: "string \<Rightarrow> string" where
  "toLowerCase s = map toLowerChar s"

text \<open>\<open>s.replace(/\s+/g, '_')\<close>: every maximal run of white space becomes one underscore.\<close>

function replaceWhitespaceRuns :: "string \<Rightarrow> string" where
  "replaceWhitespaceRuns [] = []"
| "replaceWhitespaceRuns (c # cs) =
     (if isWhiteSpace c then CHR ''_'' # replaceWhitespaceRuns (dropWhile isWhiteSpace cs)
      else c # replaceWhitespaceRuns cs)"
  by pat_completeness auto
termination
  by (relation "measure length") (auto simp: less_Suc_eq_le length_dropWhile_le)

definition trim :: "string \<Rightarrow> string" where
  "trim s = rev (dropWhile isWhiteSpace (rev (dropWhile isWhiteSpace s)))"

text \<open>
  \<open>parseInt(x)\<close> with no radix: white space is skipped, then an optional sign, then the
  prefix \<open>0x\<close> or \<open>0X\<close> switches to radix 16, then the longest run of digits of the radix
  is read; whatever follows is ignored. With no digit the result is \<open>NaN\<close>, here \<open>None\<close>.
  \<open>parseInt\<close> below is the integer that is read (\<open>-0\<close> is \<open>0\<close>); the Number the program
  gets is the double nearest to it, \<open>parseIntNumber\<close>.
\<close>

definition digitValue :: "char \<Rightarrow> nat option" where
  "digitValue c =
     (let n = (of_char c :: nat)
      in if 48 \<le> n \<and> n \<le> 57 then Some (n - 48)
         else if 97 \<le> n \<and> n \<le> 122 then Some (n - 87)
         else if 65 \<le> n \<and> n \<le> 90 then Some (n - 55)
         else None)"

definition isRadixDigit :: "nat \<Rightarrow> char \<Rightarrow> bool" where
  "isRadixDigit R c = (case digitValue c of None \<Rightarrow> False | Some d \<Rightarrow> d < R)"

definition radixValue :: "nat \<Rightarrow> string \<Rightarrow> int" where
  "radixValue R Z =
     foldl (\<lambda>acc c. acc * int R + (case digitValue c of None \<Rightarrow> 0 | Some d \<Rightarrow> int d)) 0 Z"

definition parseInt :: "string \<Rightarrow> int option" where
  "parseInt inputString =
     (let S = dropWhile isWhiteSpace inputString;
          (sign, S1) = (case S of
                          c # r \<Rightarrow> if c = CHR ''-'' then (- 1 :: int, r)
                                   else if c = CHR ''+'' then (1, r) else (1, S)
                        | [] \<Rightarrow> (1, S));
          (R, S2) = (case S1 of
                       c # x # r \<Rightarrow> if c = CHR ''0'' \<and> (x = CHR ''x'' \<or> x = CHR ''X'')
                                       then (16 :: nat, r) else (10, S1)
                     | _ \<Rightarrow> (10, S1));
          Z = takeWhile (isRadixDigit R) S2
      in if Z = [] then None else Some (sign * radixValue R Z))"

text \<open>
  The double nearest to an integer, with ties to the even mantissa: an integer below
  \<open>2^53\<close> in magnitude is a double; a larger one keeps its 53 leading bits. (From \<open>2^1024\<close>
  on the program has \<open>Infinity\<close>; the model keeps the rounded integer, which is beyond every
  range it is compared with, as \<open>Infinity\<close> is.)
\<close>

function bitLength :: "int \<Rightarrow> nat" where
  "bitLength n = (if n \<le> 0 then 0 else Suc (bitLength (n div 2)))"
  by pat_completeness auto
termination
  by (relation "measure nat") auto

declare bitLength.simps [simp del]

definition nearestDouble :: "int \<Rightarrow> int" where
  "nearestDouble n =
     (let a = \<bar>n\<bar>
      in if a < 2 ^ 53 then n
         else let e = bitLength a - 53;
                  q = a div 2 ^ e;
                  r = a mod 2 ^ e;
                  half = 2 ^ (e - 1);
                  m = (if half < r \<or> (r = half \<and> odd q) then q + 1 else q)
              in sgn n * (m * 2 ^ e))"

definition parseIntNumber :: "string \<Rightarrow> int option" where
  "parseIntNumber inputString = map_option nearestDouble (parseInt inputString)"

text \<open>The decimal text of a natural number, as a template literal prints \<open>idx + 1\<close>.\<close>

fun showNat :: "nat \<Rightarrow> string" where
  "showNat n = (if n < 10 then [char_of (48 + n)] else showNat (n div 10) @ [char_of (48 + n mod 10)])"

declare showNat.simps [simp del]

section \<open>Category validator (lib/auth)\<close>

definition ALLOWED_CATEGORIES :: "string list" where
  "ALLOWED_CATEGORIES =
     [''naruto'', ''one_piece'', ''demon_slayer'', ''jujutsu_kaisen'', ''attack_on_titan'',
      ''dragon_ball'', ''my_hero_academia'', ''pokemon'', ''spy_x_family'', ''solo_leveling'',
      ''nature'', ''popular_anime'']"

text \<open>
  \<open>validateCategory\<close> returns the normalised name, or throws
  \<open>Error(`Invalid category: ${category}`)\<close>; the thrown message is the \<open>Inl\<close> value.
\<close>

definition validateCategory :: "string \<Rightarrow> string + string" where
  "validateCategory category =
     (let normalized = replaceWhitespaceRuns (toLowerCase category)
      in if normalized \<notin> set ALLOWED_CATEGORIES
         then Inl (''Invalid category: '' @ category)
         else Inr normalized)"

text \<open>Validating the value a first validation returned; a throw of the first call propagates.\<close>

definition validateTwice :: "string \<Rightarrow> string + string" where
  "validateTwice x = (case validateCategory x of Inl e \<Rightarrow> Inl e | Inr y \<Rightarrow> validateCategory y)"

text \<open>
  The specification's notion of a mixed-case or white-space variant of a canonical name,
  written from its words: each character of the canonical name is matched by a character
  that lowercases to it, or, for an underscore, by a whole run of white space.
\<close>

fun isCaseWhitespaceVariant :: "string \<Rightarrow> string \<Rightarrow> bool" where
  "isCaseWhitespaceVariant [] [] = True"
| "isCaseWhitespaceVariant (c # cs) [] = False"
| "isCaseWhitespaceVariant [] (y # ys) = False"
| "isCaseWhitespaceVariant (c # cs) (y # ys) =
     ((toLowerChar y = c \<and> isCaseWhitespaceVariant cs ys) \<or>
      (c = CHR ''_'' \<and> isWhiteSpace y \<and> isCaseWhitespaceVariant cs (dropWhile isWhiteSpace ys)))"

text \<open>\<open>s.startsWith(p)\<close> and \<open>s.includes(sub)\<close>.\<close>

definition startsWith :: "string \<Rightarrow> string \<Rightarrow> bool" where
  "startsWith s p = (take (length p) s = p)"

definition includesStr :: "string \<Rightarrow> string \<Rightarrow> bool" where
  "includesStr s sub = list_ex (\<lambda>i. startsWith (drop i s) sub) [0 ..< Suc (length s)]"

section \<open>The media table (lib/db)\<close>

text \<open>
  One row of the table \<open>media\<close> as \<open>createTables\<close> declares it. The columns \<open>views\<close>,
  \<open>visible\<close>, \<open>created_at\<close> and \<open>updated_at\<close> have a default but no \<open>NOT NULL\<close>, so they
  are optional here; \<open>None\<close> is SQL's \<open>NULL\<close>. Time stamps are integers.
\<close>

record media =
  media_id :: int
  title :: string
  category :: string
  url :: string
  media_type :: string
  views :: "int option"
  visible :: "bool option"
  created_at :: "int option"
  updated_at :: "int option"

text \<open>
  The table: its rows, the next value of the \<open>SERIAL\<close> sequence, the defaults of the
  columns \<open>views\<close> and \<open>visible\<close> (\<open>CREATE TABLE IF NOT EXISTS\<close> keeps a table that
  exists, whatever its defaults), and the time \<open>CURRENT_TIMESTAMP\<close> gives.
\<close>

record table =
  rows :: "media list"
  next_id :: int
  default_views :: "int option"
  default_visible :: "bool option"
  current_timestamp :: int

text \<open>
  The database as \<open>query\<close> sees it: \<open>Down msg\<close> when the pool is not initialised or the
  server does not answer, and then every \<open>query\<close> rejects with \<open>Error(msg)\<close>; \<open>Up t\<close>
  when statements run against the table \<open>t\<close>. A statement that runs returns its result
  or is rejected by the server, and then \<open>query\<close> rejects with the server's message.
\<close>

datatype database = Down string | Up table

definition query :: "database \<Rightarrow> (table \<Rightarrow> string + 'a) \<Rightarrow> string + 'a" where
  "query db statement = (case db of Down msg \<Rightarrow> Inl msg | Up t \<Rightarrow> statement t)"

text \<open>
  The parameters of a statement. The server reads each one as the type its place asks
  for and rejects the statement when it cannot: a text that holds the character 0, a
  number beyond the 32 bits of an \<open>INT\<close> or \<open>SERIAL\<close> column, a \<open>LIMIT\<close> or \<open>OFFSET\<close> beyond
  the 64 bits of a \<open>bigint\<close>. The messages are the server's, without the value they quote.
\<close>

definition INT_MAX :: int where "INT_MAX = 2147483647"
definition BIGINT_MAX :: int where "BIGINT_MAX = 9223372036854775807"

definition textParam :: "string \<Rightarrow> (string + 'a) \<Rightarrow> string + 'a" where
  "textParam s rest =
     (if CHR 0x00 \<in> set s then Inl ''invalid byte sequence for encoding UTF8: 0x00'' else rest)"

definition integerParam :: "int \<Rightarrow> (string + 'a) \<Rightarrow> string + 'a" where
  "integerParam n rest =
     (if n < - INT_MAX - 1 \<or> INT_MAX < n then Inl ''value is out of range for type integer''
      else rest)"

definition bigintParam :: "int \<Rightarrow> (string + 'a) \<Rightarrow> string + 'a" where
  "bigintParam n rest =
     (if n < - BIGINT_MAX - 1 \<or> BIGINT_MAX < n then Inl ''value is out of range for type bigint''
      else rest)"

text \<open>\<open>COUNT(*)\<close> is a \<open>bigint\<close>, which arrives as its decimal text.\<close>

definition countText :: "int \<Rightarrow> string" where
  "countText n = showNat (nat n)"

text \<open>\<open>ORDER BY\<close>: insertion by a "comes no later than" test; \<open>DESC\<close> puts \<open>NULL\<close> first.\<close>

fun insertBy :: "('a \<Rightarrow> 'a \<Rightarrow> bool) \<Rightarrow> 'a \<Rightarrow> 'a list \<Rightarrow> 'a list" where
  "insertBy earlier x [] = [x]"
| "insertBy earlier x (y # ys) =
     (if earlier x y then x # y # ys else y # insertBy earlier x ys)"

definition orderBy :: "('a \<Rightarrow> 'a \<Rightarrow> bool) \<Rightarrow> 'a list \<Rightarrow> 'a list" where
  "orderBy earlier xs = foldr (insertBy earlier) xs []"

definition descNullsFirst :: "int option \<Rightarrow> int option \<Rightarrow> bool" where
  "descNullsFirst a b =
     (case a of None \<Rightarrow> True | Some x \<Rightarrow> (case b of None \<Rightarrow> False | Some y \<Rightarrow> y \<le> x))"

definition orderByCreatedAtDesc :: "media list \<Rightarrow> media list" where
  "orderByCreatedAtDesc xs = orderBy (\<lambda>a b. descNullsFirst (created_at a) (created_at b)) xs"

definition orderByViewsDesc :: "media list \<Rightarrow> media list" where
  "orderByViewsDesc xs = orderBy (\<lambda>a b. descNullsFirst (views a) (views b)) xs"

text \<open>
  \<open>LIMIT $l OFFSET $o\<close>: both parameters are \<open>bigint\<close>s, and a negative one is rejected
  when the statement runs. (The offset is sent as the decimal text of a double; above
  \<open>2^53\<close> that text can differ from the double by less than the spacing of the doubles
  there, which no table of fewer than \<open>2^53\<close> rows can show.)
\<close>

definition limitOffset :: "int \<Rightarrow> int \<Rightarrow> 'a list \<Rightarrow> 'a list" where
  "limitOffset l off xs =
     (if int (length xs) \<le> off then [] else take (nat l) (drop (nat off) xs))"

definition limitOffsetClause :: "int \<Rightarrow> int \<Rightarrow> 'a list \<Rightarrow> string + 'a list" where
  "limitOffsetClause l off xs =
     bigintParam l (bigintParam off
       (if l < 0 then Inl ''LIMIT must not be negative''
        else if off < 0 then Inl ''OFFSET must not be negative''
        else Inr (limitOffset l off xs)))"

text \<open>
  \<open>ORDER BY RANDOM() LIMIT 1\<close>: the database's choice is the parameter \<open>rnd\<close>; every
  matching row is chosen by some \<open>rnd\<close>.
\<close>

definition randomOne :: "nat \<Rightarrow> 'a list \<Rightarrow> 'a list" where
  "randomOne rnd xs = (if xs = [] then [] else [xs ! (rnd mod length xs)])"

section \<open>Responses\<close>

text \<open>
  The records of the bulk-upload response, as routes/admin declares them; a field whose
  name a column of \<open>media\<close> already has carries a prefix.
\<close>

record MediaRecord =
  mr_id :: int
  mr_title :: string
  mr_category :: string
  mr_url :: string
  mr_media_type :: string
  mr_views :: "int option"
  mr_visible :: "bool option"

record UploadedMediaItem =
  filename :: string
  item_title :: string
  item_category :: string
  item_media :: MediaRecord

record UploadError =
  err_filename :: string
  err_index :: nat
  err_error :: string

datatype jv =
    JNum int
  | JStr string
  | JRow media
  | JRows "media list"
  | JUploaded "UploadedMediaItem list"
  | JErrors "UploadError list"
  | JObj "(string \<times> jv) list"

record response =
  status :: nat
  body :: jv

text \<open>\<open>res.status(st).json({...})\<close>; \<open>res.json(v)\<close> alone answers 200.\<close>

definition respond :: "nat \<Rightarrow> (string \<times> jv) list \<Rightarrow> response" where
  "respond st fs = \<lparr>status = st, body = JObj fs\<rparr>"

definition field :: "string \<Rightarrow> response \<Rightarrow> jv option" where
  "field k r = (case body r of JObj fs \<Rightarrow> map_of fs k | _ \<Rightarrow> None)"

section \<open>Public read API (routes/media)\<close>

text \<open>
  A query parameter has type \<open>any\<close>: it is absent, a string, or an array or nested object,
  which \<open>parseInt\<close> reads through the string \<open>ToString\<close> gives (\<open>QOther\<close> carries it).
\<close>

datatype qparam = QUndefined | QString string | QOther string

definition toStringParam :: "qparam \<Rightarrow> string" where
  "toStringParam p = (case p of QUndefined \<Rightarrow> ''undefined'' | QString s \<Rightarrow> s | QOther s \<Rightarrow> s)"

definition DEFAULT_LIMIT :: int where "DEFAULT_LIMIT = 50"
definition MAX_LIMIT :: int where "MAX_LIMIT = 200"
definition SEARCH_LIMIT :: int where "SEARCH_LIMIT = 100"

text \<open>\<open>parseInt(p) || d\<close>: \<open>NaN\<close> and \<open>0\<close> are falsy.\<close>

definition orDefault :: "int option \<Rightarrow> int \<Rightarrow> int" where
  "orDefault v d = (case v of None \<Rightarrow> d | Some n \<Rightarrow> if n = 0 then d else n)"

definition getLimit :: "qparam \<Rightarrow> int" where
  "getLimit limitParam =
     (let limit = orDefault (parseIntNumber (toStringParam limitParam)) DEFAULT_LIMIT
      in min (max 1 limit) MAX_LIMIT)"

definition getOffset :: "qparam \<Rightarrow> int" where
  "getOffset offsetParam =
     (let offset = orDefault (parseIntNumber (toStringParam offsetParam)) 0
      in max 0 offset)"

definition validateSearchQuery :: "qparam \<Rightarrow> string + string" where
  "validateSearchQuery searchQuery =
     (case searchQuery of
        QUndefined \<Rightarrow> Inl ''Search query is required''
      | QOther s \<Rightarrow> Inl ''Search query is required''
      | QString s \<Rightarrow>
          if s = [] then Inl ''Search query is required''
          else let trimmed = trim s
               in if length trimmed = 0 then Inl ''Search query cannot be empty''
                  else if length trimmed > 255
                  then Inl ''Search query too long (max 255 characters)''
                  else Inr trimmed)"

text \<open>
  The handlers for images and for GIFs are copies that differ in the literal \<open>'image'\<close> or
  \<open>'gif'\<close> and in the wording of the messages; one definition with the type as a
  parameter stands for both.
\<close>

datatype mtype = Image | Gif

definition typeName :: "mtype \<Rightarrow> string" where
  "typeName mt = (case mt of Image \<Rightarrow> ''image'' | Gif \<Rightarrow> ''gif'')"

definition plural :: "mtype \<Rightarrow> string" where
  "plural mt = (case mt of Image \<Rightarrow> ''images'' | Gif \<Rightarrow> ''gifs'')"

definition isVisibleOfType :: "string \<Rightarrow> media \<Rightarrow> bool" where
  "isVisibleOfType ty r = (media_type r = ty \<and> visible r = Some True)"

subsection \<open>\<open>GET /all-images\<close>, \<open>GET /all-gifs\<close>\<close>

definition selectAll :: "string \<Rightarrow> int \<Rightarrow> int \<Rightarrow> table \<Rightarrow> string + media list" where
  "selectAll ty l off t =
     limitOffsetClause l off (orderByCreatedAtDesc (filter (isVisibleOfType ty) (rows t)))"

definition countAll :: "string \<Rightarrow> table \<Rightarrow> int" where
  "countAll ty t = int (length (filter (isVisibleOfType ty) (rows t)))"

definition get_all :: "mtype \<Rightarrow> database \<Rightarrow> qparam \<Rightarrow> qparam \<Rightarrow> response" where
  "get_all mt db limitParam offsetParam =
     (let limit = getLimit limitParam; offset = getOffset offsetParam
      in case query db (selectAll (typeName mt) limit offset) of
           Inl msg \<Rightarrow> respond 500 [(''error'', JStr msg)]
         | Inr result \<Rightarrow>
             (case query db (\<lambda>t. Inr (countText (countAll (typeName mt) t))) of
                Inl msg \<Rightarrow> respond 500 [(''error'', JStr msg)]
              | Inr countResult \<Rightarrow>
                  let total_count = orDefault (parseIntNumber countResult) 0
                  in
                  if length result = 0
                  then respond 404
                         [(''error'', JStr (''No '' @ plural mt @ '' available'')),
                          (''total'', JNum 0), (''returned'', JNum 0),
                          (''limit'', JNum limit), (''offset'', JNum offset),
                          (''results'', JRows [])]
                  else respond 200
                         [(''media_type'', JStr (typeName mt)), (''total'', JNum total_count),
                          (''returned'', JNum (int (length result))),
                          (''limit'', JNum limit), (''offset'', JNum offset),
                          (''results'', JRows result)]))"

subsection \<open>\<open>GET /random\<close>, \<open>/random/image\<close>, \<open>/random/gif\<close> and the category variants\<close>

definition get_random :: "database \<Rightarrow> nat \<Rightarrow> response" where
  "get_random db rnd =
     (case query db (\<lambda>t. Inr (randomOne rnd (filter (\<lambda>r. visible r = Some True) (rows t)))) of
        Inl msg \<Rightarrow> respond 500 [(''error'', JStr msg)]
      | Inr result \<Rightarrow>
          (case result of
             [] \<Rightarrow> respond 404 [(''error'', JStr ''No media available'')]
           | r # _ \<Rightarrow> \<lparr>status = 200, body = JRow r\<rparr>))"

definition get_random_typed :: "mtype \<Rightarrow> database \<Rightarrow> nat \<Rightarrow> response" where
  "get_random_typed mt db rnd =
     (case query db (\<lambda>t. Inr (randomOne rnd (filter (isVisibleOfType (typeName mt)) (rows t)))) of
        Inl msg \<Rightarrow> respond 500 [(''error'', JStr msg)]
      | Inr result \<Rightarrow>
          (case result of
             [] \<Rightarrow> respond 404 [(''error'', JStr (''No '' @ plural mt @ '' available''))]
           | r # _ \<Rightarrow> \<lparr>status = 200, body = JRow r\<rparr>))"

text \<open>The \<open>catch\<close> of the category routes: 400 for a message that starts with \<open>Invalid category\<close>.\<close>

definition categoryCatch :: "string \<Rightarrow> response" where
  "categoryCatch msg =
     (if startsWith msg ''Invalid category'' then respond 400 [(''error'', JStr msg)]
      else respond 500 [(''error'', JStr msg)])"

definition get_random_category :: "mtype \<Rightarrow> database \<Rightarrow> string \<Rightarrow> nat \<Rightarrow> response" where
  "get_random_category mt db categoryParam rnd =
     (case validateCategory categoryParam of
        Inl msg \<Rightarrow> categoryCatch msg
      | Inr cat \<Rightarrow>
          (case query db (\<lambda>t. textParam cat (Inr (randomOne rnd
                    (filter (\<lambda>r. category r = cat \<and> isVisibleOfType (typeName mt) r) (rows t))))) of
             Inl msg \<Rightarrow> categoryCatch msg
           | Inr result \<Rightarrow>
               (case result of
                  [] \<Rightarrow> respond 404 [(''error'', JStr (''No '' @ plural mt @ '' in this category''))]
                | r # _ \<Rightarrow> \<lparr>status = 200, body = JRow r\<rparr>)))"

subsection \<open>\<open>GET /image/id/:media_id\<close>, \<open>GET /gif/id/:media_id\<close>\<close>

text \<open>
  \<open>incrementViews\<close> is started and not awaited; a failure is logged and the table keeps
  its rows. \<open>views\<close> is an \<open>INT\<close>: the update is rejected when a row it touches has the
  largest value already. The handler returns the response and the database once the
  update has run.
\<close>

definition updateViews :: "int \<Rightarrow> table \<Rightarrow> string + table" where
  "updateViews mediaId t =
     integerParam mediaId
       (if list_ex (\<lambda>r. media_id r = mediaId \<and> views r = Some INT_MAX) (rows t)
        then Inl ''integer out of range''
        else Inr (t\<lparr>rows := map (\<lambda>r. if media_id r = mediaId
                                      then r\<lparr>views := map_option (\<lambda>v. v + 1) (views r)\<rparr>
                                      else r) (rows t)\<rparr>))"

definition incrementViews :: "int \<Rightarrow> database \<Rightarrow> database" where
  "incrementViews mediaId db =
     (case db of
        Down msg \<Rightarrow> db
      | Up t \<Rightarrow> (case updateViews mediaId t of Inl msg \<Rightarrow> db | Inr t' \<Rightarrow> Up t'))"

definition notFoundName :: "mtype \<Rightarrow> string" where
  "notFoundName mt = (case mt of Image \<Rightarrow> ''Image not found'' | Gif \<Rightarrow> ''GIF not found'')"

definition rowsById :: "string \<Rightarrow> int \<Rightarrow> table \<Rightarrow> media list" where
  "rowsById ty mediaId t =
     filter (\<lambda>r. media_id r = mediaId \<and> visible r = Some True \<and> media_type r = ty) (rows t)"

definition selectById :: "string \<Rightarrow> int \<Rightarrow> table \<Rightarrow> string + media list" where
  "selectById ty mediaId t = integerParam mediaId (Inr (rowsById ty mediaId t))"

definition get_by_id :: "mtype \<Rightarrow> database \<Rightarrow> string \<Rightarrow> response \<times> database" where
  "get_by_id mt db media_id_param =
     (case parseIntNumber media_id_param of
        None \<Rightarrow> (respond 400 [(''error'', JStr ''Invalid media ID'')], db)
      | Some mediaId \<Rightarrow>
          if mediaId < 1 then (respond 400 [(''error'', JStr ''Invalid media ID'')], db)
          else (case query db (selectById (typeName mt) mediaId) of
                  Inl msg \<Rightarrow> (respond 500 [(''error'', JStr msg)], db)
                | Inr result \<Rightarrow>
                    (case result of
                       [] \<Rightarrow> (respond 404 [(''error'', JStr (notFoundName mt))], db)
                     | m # _ \<Rightarrow> (\<lparr>status = 200, body = JRow m\<rparr>, incrementViews mediaId db))))"

subsection \<open>\<open>GET /search/image\<close>, \<open>GET /search/gif\<close>\<close>

text \<open>
  The database evaluates \<open>LOWER(col) LIKE $1\<close>; its result for a column value and a pattern
  is the parameter \<open>lowerLike\<close> of the handler.
\<close>

definition searchMatches :: "(string \<Rightarrow> string \<Rightarrow> bool) \<Rightarrow> string \<Rightarrow> string \<Rightarrow> media \<Rightarrow> bool" where
  "searchMatches lowerLike ty pat r =
     (visible r = Some True \<and> media_type r = ty \<and>
      (lowerLike (title r) pat \<or> lowerLike (category r) pat))"

definition selectSearch ::
  "(string \<Rightarrow> string \<Rightarrow> bool) \<Rightarrow> string \<Rightarrow> string \<Rightarrow> int \<Rightarrow> int \<Rightarrow> table
     \<Rightarrow> string + media list" where
  "selectSearch lowerLike ty pat l off t =
     textParam pat
       (limitOffsetClause l off
          (orderByViewsDesc (filter (searchMatches lowerLike ty pat) (rows t))))"

definition countSearch :: "(string \<Rightarrow> string \<Rightarrow> bool) \<Rightarrow> string \<Rightarrow> string \<Rightarrow> table \<Rightarrow> int" where
  "countSearch lowerLike ty pat t = int (length (filter (searchMatches lowerLike ty pat) (rows t)))"

definition searchCatch :: "string \<Rightarrow> response" where
  "searchCatch msg =
     (if includesStr msg ''Search query'' then respond 400 [(''error'', JStr msg)]
      else respond 500 [(''error'', JStr msg)])"

definition get_search ::
  "(string \<Rightarrow> string \<Rightarrow> bool) \<Rightarrow> mtype \<Rightarrow> database \<Rightarrow> qparam \<Rightarrow> qparam \<Rightarrow> qparam \<Rightarrow> response" where
  "get_search lowerLike mt db q limitParam offsetParam =
     (case validateSearchQuery q of
        Inl msg \<Rightarrow> searchCatch msg
      | Inr searchQuery \<Rightarrow>
          let limit = getLimit limitParam; offset = getOffset offsetParam;
              searchPattern = ''%'' @ toLowerCase searchQuery @ ''%''
          in case query db (selectSearch lowerLike (typeName mt) searchPattern
                              (min limit SEARCH_LIMIT) offset) of
               Inl msg \<Rightarrow> searchCatch msg
             | Inr result \<Rightarrow>
                 if length result = 0
                 then respond 404
                        [(''error'', JStr (''No '' @ plural mt @ '' found'')),
                         (''query'', JStr searchQuery), (''total'', JNum 0),
                         (''results'', JRows [])]
                 else (case query db (\<lambda>t. textParam searchPattern
                                   (Inr (countText (countSearch lowerLike (typeName mt) searchPattern t)))) of
                         Inl msg \<Rightarrow> searchCatch msg
                       | Inr countResult \<Rightarrow>
                           let total_count = orDefault (parseIntNumber countResult) 0
                           in
                           respond 200
                             [(''query'', JStr searchQuery), (''total'', JNum total_count),
                              (''returned'', JNum (int (length result))),
                              (''limit'', JNum (min limit SEARCH_LIMIT)),
                              (''offset'', JNum offset), (''results'', JRows result)]))"

subsection \<open>\<open>GET /image/:category\<close>, \<open>GET /gif/:category\<close>\<close>

definition inCategoryOfType :: "string \<Rightarrow> string \<Rightarrow> media \<Rightarrow> bool" where
  "inCategoryOfType cat ty r = (category r = cat \<and> media_type r = ty \<and> visible r = Some True)"

definition selectCategory ::
  "string \<Rightarrow> string \<Rightarrow> int \<Rightarrow> int \<Rightarrow> table \<Rightarrow> string + media list" where
  "selectCategory cat ty l off t =
     textParam cat
       (limitOffsetClause l off
          (orderByCreatedAtDesc (filter (inCategoryOfType cat ty) (rows t))))"

definition countCategory :: "string \<Rightarrow> string \<Rightarrow> table \<Rightarrow> int" where
  "countCategory cat ty t = int (length (filter (inCategoryOfType cat ty) (rows t)))"

definition get_by_category ::
  "mtype \<Rightarrow> database \<Rightarrow> string \<Rightarrow> qparam \<Rightarrow> qparam \<Rightarrow> response" where
  "get_by_category mt db categoryParam limitParam offsetParam =
     (case validateCategory categoryParam of
        Inl msg \<Rightarrow> categoryCatch msg
      | Inr cat \<Rightarrow>
          let limit = getLimit limitParam; offset = getOffset offsetParam
          in case query db (selectCategory cat (typeName mt) limit offset) of
               Inl msg \<Rightarrow> categoryCatch msg
             | Inr result \<Rightarrow>
                 if length result = 0
                 then respond 404
                        [(''error'', JStr (''No '' @ plural mt @ '' in this category'')),
                         (''category'', JStr cat), (''total'', JNum 0),
                         (''results'', JRows [])]
                 else (case query db (\<lambda>t. textParam cat
                                   (Inr (countText (countCategory cat (typeName mt) t)))) of
                         Inl msg \<Rightarrow> categoryCatch msg
                       | Inr countResult \<Rightarrow>
                           let total_count = orDefault (parseIntNumber countResult) 0
                           in
                           respond 200
                             [(''category'', JStr cat), (''total'', JNum total_count),
                              (''returned'', JNum (int (length result))),
                              (''limit'', JNum limit), (''offset'', JNum offset),
                              (''results'', JRows result)]))"

section \<open>Token check for the administrative routes (lib/auth)\<close>

text \<open>
  A claim of a decoded token is a JavaScript value; \<open>!decoded.is_admin\<close> tests its
  truthiness, and a claim that is absent reads as \<open>undefined\<close>.
\<close>

datatype jsval = JsUndefined | JsNull | JsBool bool | JsNumber int | JsString string

definition truthy :: "jsval \<Rightarrow> bool" where
  "truthy v =
     (case v of JsUndefined \<Rightarrow> False | JsNull \<Rightarrow> False | JsBool b \<Rightarrow> b
      | JsNumber n \<Rightarrow> n \<noteq> 0 | JsString s \<Rightarrow> s \<noteq> [])"

type_synonym AdminPayload = "(string \<times> jsval) list"

definition claim :: "AdminPayload \<Rightarrow> string \<Rightarrow> jsval" where
  "claim decoded k = (case map_of decoded k of None \<Rightarrow> JsUndefined | Some v \<Rightarrow> v)"

text \<open>
  \<open>jwt.verify(token, JWT_SECRET, {algorithms: ['HS256']})\<close> belongs to the library
  \<open>jsonwebtoken\<close>: it returns the decoded claims, or throws an error whose \<open>name\<close> is
  \<open>TokenExpiredError\<close> for an expired token and another name (\<open>JsonWebTokenError\<close> for a
  bad signature or a malformed token) otherwise. It is the parameter \<open>verify\<close>.
\<close>

datatype verified = Threw string | Decoded AdminPayload

record request =
  authorization :: "string option"
  admin :: "AdminPayload option"

datatype passed = Responded response | Next request

definition authenticateAdmin :: "(string \<Rightarrow> verified) \<Rightarrow> request \<Rightarrow> passed" where
  "authenticateAdmin verify req =
     (case authorization req of
        None \<Rightarrow> Responded (respond 401 [(''error'', JStr ''Missing or invalid authorization header'')])
      | Some authHeader \<Rightarrow>
          if authHeader = [] \<or> \<not> startsWith authHeader ''Bearer ''
          then Responded (respond 401 [(''error'', JStr ''Missing or invalid authorization header'')])
          else let token = drop 7 authHeader
               in case verify token of
                    Threw name \<Rightarrow>
                      if name = ''TokenExpiredError''
                      then Responded (respond 401 [(''error'', JStr ''Token expired'')])
                      else Responded (respond 401 [(''error'', JStr ''Invalid token'')])
                  | Decoded decoded \<Rightarrow>
                      if \<not> truthy (claim decoded ''is_admin'')
                      then Responded (respond 403 [(''error'', JStr ''Insufficient permissions'')])
                      else Next (req\<lparr>admin := Some decoded\<rparr>))"

section \<open>Bulk upload (routes/admin)\<close>

record UploadFile =
  fieldname :: string
  originalname :: string
  encoding :: string
  mimetype :: string
  file_size :: nat
  buffer :: string

text \<open>
  A body field is absent, an array, a string, or something else. The elements of an array
  are strings (the declared result type is \<open>string[]\<close>). \<open>JSON.parse\<close> is the parameter
  \<open>parseArray\<close>: \<open>Some xs\<close> when the text parses to the array \<open>xs\<close>, \<open>None\<close> when it parses
  to something else or does not parse.
\<close>

datatype bodyField = FieldUndefined | FieldArray "string list" | FieldString string | FieldOther

definition normalizeArrayField :: "(string \<Rightarrow> string list option) \<Rightarrow> bodyField \<Rightarrow> string list" where
  "normalizeArrayField parseArray fld =
     (case fld of
        FieldUndefined \<Rightarrow> []
      | FieldArray xs \<Rightarrow> xs
      | FieldString s \<Rightarrow>
          if s = [] then []
          else (case parseArray s of Some parsed \<Rightarrow> parsed | None \<Rightarrow> [s])
      | FieldOther \<Rightarrow> [])"

text \<open>The two replication steps of the handler, for the titles and for the categories.\<close>

definition replicateTitles :: "UploadFile list \<Rightarrow> string list \<Rightarrow> string list" where
  "replicateTitles files titles =
     (if length titles = 1 \<and> length files > 1
      then (let singleTitle = hd titles
            in map (\<lambda>idx. singleTitle @ '' '' @ showNat (idx + 1)) [0 ..< length files])
      else titles)"

definition replicateCategories :: "UploadFile list \<Rightarrow> string list \<Rightarrow> string list" where
  "replicateCategories files categories =
     (if length categories = 1 \<and> length files > 1
      then (let singleCategory = hd categories
            in replicate (length files) singleCategory)
      else categories)"

text \<open>
  The upload to the CDN belongs to the library \<open>cloudinary\<close> and to the network. Its
  outcome for the call at position \<open>idx\<close> of the batch is the parameter \<open>cdn\<close>: an error
  with its message, or a result with its \<open>secure_url\<close>, which may be missing.
\<close>

record UploadParams =
  resource_type :: string
  folder :: string
  use_filename :: bool
  unique_filename :: bool
  timeout :: int
  format :: "string option"
  flags :: "string option"

datatype cdnOutcome = CdnError string | CdnResult "string option"

text \<open>
  \<open>INSERT INTO media (title, category, url, media_type, visible, views) VALUES (...)
  RETURNING id, title, category, url, media_type, views, visible\<close>. A column the statement
  names takes the value given; \<open>created_at\<close> and \<open>updated_at\<close> take their default. A text
  that holds the character 0 is rejected, the declared widths \<open>VARCHAR(255)\<close>,
  \<open>VARCHAR(100)\<close> and \<open>VARCHAR(20)\<close> reject a longer value, and so does the key a
  value of the sequence beyond its 32 bits.
\<close>

definition insertMedia ::
  "string \<Rightarrow> string \<Rightarrow> string \<Rightarrow> string \<Rightarrow> bool \<Rightarrow> int \<Rightarrow> database
     \<Rightarrow> (string + MediaRecord) \<times> database" where
  "insertMedia ti cat u ty vis vw db =
     (case db of
        Down msg \<Rightarrow> (Inl msg, db)
      | Up t \<Rightarrow>
          if CHR 0x00 \<in> set (ti @ cat @ u @ ty)
          then (Inl ''invalid byte sequence for encoding UTF8: 0x00'', db)
          else if length ti > 255 then (Inl ''value too long for type character varying(255)'', db)
          else if length cat > 100 then (Inl ''value too long for type character varying(100)'', db)
          else if length ty > 20 then (Inl ''value too long for type character varying(20)'', db)
          else if INT_MAX < next_id t then (Inl ''integer out of range'', db)
          else
            (Inr \<lparr>mr_id = next_id t, mr_title = ti, mr_category = cat, mr_url = u,
                   mr_media_type = ty, mr_views = Some vw, mr_visible = Some vis\<rparr>,
             Up (t\<lparr>rows := rows t @
                       [\<lparr>media_id = next_id t, title = ti, category = cat, url = u,
                          media_type = ty, views = Some vw, visible = Some vis,
                          created_at = Some (current_timestamp t),
                          updated_at = Some (current_timestamp t)\<rparr>],
                     next_id := next_id t + 1\<rparr>)))"

text \<open>\<open>xs[idx]\<close> converted by \<open>String(...)\<close>: out of range it is \<open>undefined\<close>.\<close>

definition stringAt :: "string list \<Rightarrow> nat \<Rightarrow> string" where
  "stringAt xs idx = (if idx < length xs then xs ! idx else ''undefined'')"

record batch =
  uploadedMedia :: "UploadedMediaItem list"
  errors :: "UploadError list"
  successCount :: nat
  failedCount :: nat
  db_after :: database

text \<open>The body of the inner \<open>try\<close> for the file at \<open>idx\<close>; \<open>Inl\<close> is the message thrown.\<close>

definition uploadOne ::
  "(nat \<Rightarrow> UploadFile \<Rightarrow> UploadParams \<Rightarrow> cdnOutcome) \<Rightarrow> UploadFile list \<Rightarrow> string list
     \<Rightarrow> string list \<Rightarrow> string \<Rightarrow> nat \<Rightarrow> database \<Rightarrow> string + (UploadedMediaItem \<times> database)" where
  "uploadOne cdn files titles categories mediaType idx db =
     (let file = files ! idx;
          ti = trim (stringAt titles idx);
          cat0 = trim (stringAt categories idx)
      in if ti = [] then Inl ''Title cannot be empty''
         else case validateCategory cat0 of
                Inl msg \<Rightarrow> Inl msg
              | Inr cat \<Rightarrow>
                  let uploadParams0 =
                        \<lparr>resource_type = ''image'', folder = ''animepixels/'' @ cat,
                         use_filename = True, unique_filename = True, timeout = 60000,
                         format = None, flags = None\<rparr>;
                      uploadParams =
                        (if mediaType = ''gif''
                         then uploadParams0\<lparr>format := Some ''gif'', flags := Some ''animated''\<rparr>
                         else uploadParams0)
                  in case cdn idx file uploadParams of
                       CdnError msg \<Rightarrow> Inl msg
                     | CdnResult secure_url \<Rightarrow>
                         (case secure_url of
                            None \<Rightarrow> Inl ''Cloudinary did not return secure_url''
                          | Some secureUrl \<Rightarrow>
                              if secureUrl = [] then Inl ''Cloudinary did not return secure_url''
                              else (case insertMedia ti cat secureUrl mediaType True 0 db of
                                      (Inl msg, _) \<Rightarrow> Inl msg
                                    | (Inr mediaRecord, db') \<Rightarrow>
                                        Inr (\<lparr>filename = originalname file, item_title = ti,
                                               item_category = cat, item_media = mediaRecord\<rparr>, db'))))"

text \<open>One turn of the \<open>for\<close> loop: the \<open>try\<close> and its \<open>catch\<close>.\<close>

definition uploadStep ::
  "(nat \<Rightarrow> UploadFile \<Rightarrow> UploadParams \<Rightarrow> cdnOutcome) \<Rightarrow> UploadFile list \<Rightarrow> string list
     \<Rightarrow> string list \<Rightarrow> string \<Rightarrow> nat \<Rightarrow> batch \<Rightarrow> batch" where
  "uploadStep cdn files titles categories mediaType idx b =
     (case uploadOne cdn files titles categories mediaType idx (db_after b) of
        Inr (uploadedItem, db') \<Rightarrow>
          b\<lparr>uploadedMedia := uploadedMedia b @ [uploadedItem],
            successCount := successCount b + 1,
            db_after := db'\<rparr>
      | Inl msg \<Rightarrow>
          b\<lparr>failedCount := failedCount b + 1,
            errors := errors b @
              [\<lparr>err_filename = originalname (files ! idx), err_index = idx, err_error = msg\<rparr>]\<rparr>)"

function uploadLoop ::
  "(nat \<Rightarrow> UploadFile \<Rightarrow> UploadParams \<Rightarrow> cdnOutcome) \<Rightarrow> UploadFile list \<Rightarrow> string list
     \<Rightarrow> string list \<Rightarrow> string \<Rightarrow> nat \<Rightarrow> batch \<Rightarrow> batch" where
  "uploadLoop cdn files titles categories mediaType idx b =
     (if idx < length files
      then uploadLoop cdn files titles categories mediaType (idx + 1)
             (uploadStep cdn files titles categories mediaType idx b)
      else b)"
  by pat_completeness auto
termination
  by (relation "measure (\<lambda>(cdn, files, titles, categories, mediaType, idx, b). length files - idx)")
     auto

declare uploadLoop.simps [simp del]

definition received :: "nat \<Rightarrow> nat \<Rightarrow> nat \<Rightarrow> jv" where
  "received nFiles nTitles nCategories =
     JObj [(''files'', JNum (int nFiles)), (''titles'', JNum (int nTitles)),
           (''categories'', JNum (int nCategories))]"

text \<open>
  The handler of \<open>POST /bulk-upload\<close>, after \<open>authenticateAdmin\<close> and the multipart parser.
  \<open>cloud_name\<close> is \<open>cloudinary.config().cloud_name\<close>; \<open>media_type_field\<close> is \<open>None\<close> when the
  body has no string there.
\<close>

definition bulk_upload ::
  "(string \<Rightarrow> string list option) \<Rightarrow> string option
     \<Rightarrow> (nat \<Rightarrow> UploadFile \<Rightarrow> UploadParams \<Rightarrow> cdnOutcome) \<Rightarrow> database
     \<Rightarrow> UploadFile list \<Rightarrow> bodyField \<Rightarrow> bodyField \<Rightarrow> string option
     \<Rightarrow> response \<times> database" where
  "bulk_upload parseArray cloud_name cdn db files titlesField categoriesField media_type_field =
     (if cloud_name = None \<or> cloud_name = Some []
      then (respond 500
              [(''error'', JStr ''Cloudinary is not configured''),
               (''details'', JStr ''Missing CLOUDINARY_CLOUD_NAME, CLOUDINARY_API_KEY, or CLOUDINARY_API_SECRET'')],
            db)
      else if length files = 0 then (respond 400 [(''error'', JStr ''No files provided'')], db)
      else
        let titles = replicateTitles files (normalizeArrayField parseArray titlesField);
            categories = replicateCategories files (normalizeArrayField parseArray categoriesField)
        in if length titles \<noteq> length files
           then (respond 400
                   [(''error'', JStr (''Titles count ('' @ showNat (length titles) @
                        '') != files count ('' @ showNat (length files) @ '')'')),
                    (''hint'', JStr ''Provide either one title for all files, or one title per file''),
                    (''received'', received (length files) (length titles) (length categories))],
                 db)
           else if length categories \<noteq> length files
           then (respond 400
                   [(''error'', JStr (''Categories count ('' @ showNat (length categories) @
                        '') != files count ('' @ showNat (length files) @ '')'')),
                    (''hint'', JStr ''Provide either one category for all files, or one category per file''),
                    (''received'', received (length files) (length titles) (length categories))],
                 db)
           else (case media_type_field of
                   None \<Rightarrow> (respond 400 [(''error'', JStr (''media_type must be 'image' or 'gif'' @ [CHR 0x27]))], db)
                 | Some mediaType \<Rightarrow>
                     if mediaType \<notin> set [''image'', ''gif'']
                     then (respond 400 [(''error'', JStr (''media_type must be 'image' or 'gif'' @ [CHR 0x27]))], db)
                     else
                       let b = uploadLoop cdn files titles categories mediaType 0
                                 \<lparr>uploadedMedia = [], errors = [], successCount = 0,
                                  failedCount = 0, db_after = db\<rparr>
                       in (respond 200
                             [(''success'', JNum (int (successCount b))),
                              (''failed'', JNum (int (failedCount b))),
                              (''uploaded_media'', JUploaded (uploadedMedia b)),
                              (''errors'', JErrors (errors b))],
                           db_after b)))"

section \<open>A concrete database for runs of the handlers\<close>

text \<open>
  One function the parameter \<open>lowerLike\<close> can be: \<open>LIKE\<close> with \<open>%\<close> for any text, \<open>_\<close> for
  any one character and the backslash as escape, applied to the lowercased column.
\<close>

fun like :: "string \<Rightarrow> string \<Rightarrow> bool" where
  "like [] [] = True"
| "like (c # cs) [] = False"
| "like [] (p # ps) = (p = CHR ''%'' \<and> like [] ps)"
| "like (c # cs) (p # ps) =
     (if p = CHR ''%'' then like (c # cs) ps \<or> like cs (p # ps)
      else if p = CHR 0x5C then (case ps of [] \<Rightarrow> False | e # es \<Rightarrow> c = e \<and> like cs es)
      else if p = CHR ''_'' then like cs ps
      else c = p \<and> like cs ps)"

definition lowerLikeLatin :: "string \<Rightarrow> string \<Rightarrow> bool" where
  "lowerLikeLatin v pat = like (toLowerCase v) pat"

definition mediaRow :: "int \<Rightarrow> string \<Rightarrow> string \<Rightarrow> string \<Rightarrow> bool \<Rightarrow> int \<Rightarrow> media" where
  "mediaRow i ti cat ty vis vw =
     \<lparr>media_id = i, title = ti, category = cat, url = ''https://cdn.example/'' @ ti,
      media_type = ty, views = Some vw, visible = Some vis,
      created_at = Some (1000 + i), updated_at = Some (1000 + i)\<rparr>"

text \<open>Three visible images, one visible GIF and one hidden image.\<close>

definition exampleTable :: table where
  "exampleTable =
     \<lparr>rows = [mediaRow 1 ''Naruto run'' ''naruto'' ''image'' True 5,
              mediaRow 2 ''Luffy'' ''one_piece'' ''image'' True 9,
              mediaRow 3 ''Naruto eats'' ''naruto'' ''image'' True 0,
              mediaRow 4 ''Naruto spin'' ''naruto'' ''gif'' True 2,
              mediaRow 5 ''Naruto draft'' ''naruto'' ''image'' False 0],
      next_id = 6, default_views = Some 0, default_visible = Some True,
      current_timestamp = 2000\<rparr>"

text \<open>
  A token check for runs of the middleware: it knows one administrator token, one token
  of a user who is no administrator and one expired token, and rejects every other text.
\<close>

definition exampleVerify :: "string \<Rightarrow> verified" where
  "exampleVerify token =
     (if token = ''admin-token''
      then Decoded [(''sub'', JsString ''admin''), (''is_admin'', JsBool True), (''exp'', JsNumber 2000)]
      else if token = ''user-token''
      then Decoded [(''sub'', JsString ''guest''), (''exp'', JsNumber 2000)]
      else if token = ''old-token'' then Threw ''TokenExpiredError''
      else Threw ''JsonWebTokenError'')"

text \<open>
  A CDN for runs of the upload: it rejects an empty buffer and stores every other file
  under its folder. And three files.
\<close>

definition exampleCdn :: "nat \<Rightarrow> UploadFile \<Rightarrow> UploadParams \<Rightarrow> cdnOutcome" where
  "exampleCdn idx file uploadParams =
     (if buffer file = [] then CdnError ''Empty file''
      else CdnResult (Some (''https://cdn.example/'' @ folder uploadParams @ ''/'' @ originalname file)))"

definition uploadFile :: "string \<Rightarrow> string \<Rightarrow> UploadFile" where
  "uploadFile name bytes =
     \<lparr>fieldname = ''files'', originalname = name, encoding = ''7bit'', mimetype = ''image/png'',
      file_size = length bytes, buffer = bytes\<rparr>"

definition threeFiles :: "UploadFile list" where
  "threeFiles = [uploadFile ''a.png'' ''PNG1'', uploadFile ''b.png'' ''PNG2'', uploadFile ''c.png'' ''PNG3'']"

text \<open>A table whose column defaults are not the ones \<open>createTables\<close> declares.\<close>

definition oddDefaultsTable :: table where
  "oddDefaultsTable =
     \<lparr>rows = [], next_id = 1, default_views = Some 7, default_visible = Some False,
      current_timestamp = 2000\<rparr>"

section \<open>Vocabulary of the properties\<close>

text \<open>
  A response that carries a page: status 200, \<open>k\<close> rows in \<open>results\<close>, the field
  \<open>returned\<close> equal to \<open>k\<close> and the field \<open>total\<close> equal to \<open>n\<close>. And a response for an
  empty page: status 404 and no row in \<open>results\<close>.
\<close>

definition answersPage :: "response \<Rightarrow> int \<Rightarrow> int \<Rightarrow> bool" where
  "answersPage r k n =
     (status r = 200 \<and> field ''returned'' r = Some (JNum k) \<and> field ''total'' r = Some (JNum n) \<and>
      (case field ''results'' r of Some (JRows rs) \<Rightarrow> int (length rs) = k | _ \<Rightarrow> False))"

definition answersEmpty :: "response \<Rightarrow> bool" where
  "answersEmpty r = (status r = 404 \<and> field ''results'' r = Some (JRows []))"

text \<open>
  A response that either serves one row, with status 200 and the row satisfying \<open>P\<close>, or
  serves no row and has another status.
\<close>

definition servesOnly :: "(media \<Rightarrow> bool) \<Rightarrow> response \<Rightarrow> bool" where
  "servesOnly P r = (case body r of JRow m \<Rightarrow> status r = 200 \<and> P m | _ \<Rightarrow> status r \<noteq> 200)"

text \<open>
  The specification's "the id is a positive integer", read on the text of the path
  parameter: decimal digits only, at least one, with a value above zero.
\<close>

definition isPositiveInteger :: "string \<Rightarrow> bool" where
  "isPositiveInteger s = (s \<noteq> [] \<and> list_all (isRadixDigit 10) s \<and> 0 < radixValue 10 s)"

text \<open>The middleware answered with the status \<open>st\<close> and did not call the handler.\<close>

definition rejectedWith :: "nat \<Rightarrow> passed \<Rightarrow> bool" where
  "rejectedWith st p = (case p of Responded r \<Rightarrow> status r = st | Next _ \<Rightarrow> False)"

text \<open>
  Each of the first \<open>n\<close> files is in exactly one of the two lists of a batch: the errors
  carry increasing batch indices below \<open>n\<close> and the name of the file at their index, and the
  uploaded items are, in order, the files at the other indices.
\<close>

definition accountsFor ::
  "UploadFile list \<Rightarrow> nat \<Rightarrow> UploadedMediaItem list \<Rightarrow> UploadError list \<Rightarrow> bool" where
  "accountsFor files n uploaded errs =
     (sorted_wrt (<) (map err_index errs) \<and>
      list_all (\<lambda>e. err_index e < n \<and> err_filename e = originalname (files ! err_index e)) errs \<and>
      map filename uploaded =
        map (\<lambda>i. originalname (files ! i)) (filter (\<lambda>i. i \<notin> set (map err_index errs)) [0 ..< n]))"

text \<open>The row of the table and the returned record were created with no view and visible.\<close>

definition freshRow :: "media \<Rightarrow> bool" where
  "freshRow r = (views r = Some 0 \<and> visible r = Some True)"

definition freshItem :: "UploadedMediaItem \<Rightarrow> bool" where
  "freshItem i = (mr_views (item_media i) = Some 0 \<and> mr_visible (item_media i) = Some True)"

text \<open>The rows a database holds; a database that is down shows none.\<close>

definition rowsOf :: "database \<Rightarrow> media list" where
  "rowsOf db = (case db of Down msg \<Rightarrow> [] | Up t \<Rightarrow> rows t)"

text \<open>
  The key of the table is a 32-bit integer, so a table the schema allows has at most
  \<open>2^32\<close> rows.
\<close>

definition tableFitsKey :: "table \<Rightarrow> bool" where
  "tableFitsKey t = (int (length (rows t)) \<le> 4294967296)"

text \<open>
  What the loop of the bulk upload is to do, written from the specification: the files
  are taken in turn; each goes through the steps of one upload, on the database that the
  uploads before it have left; a failure is recorded with the index of the file and the
  message, and the next file follows.
\<close>

fun fileOutcomes ::
  "(nat \<Rightarrow> UploadFile \<Rightarrow> UploadParams \<Rightarrow> cdnOutcome) \<Rightarrow> UploadFile list \<Rightarrow> string list
     \<Rightarrow> string list \<Rightarrow> string \<Rightarrow> nat list \<Rightarrow> database
     \<Rightarrow> (nat \<times> (string + UploadedMediaItem)) list" where
  "fileOutcomes cdn files titles categories mediaType [] db = []"
| "fileOutcomes cdn files titles categories mediaType (idx # rest) db =
     (case uploadOne cdn files titles categories mediaType idx db of
        Inl msg \<Rightarrow> (idx, Inl msg) # fileOutcomes cdn files titles categories mediaType rest db
      | Inr (item, db') \<Rightarrow>
          (idx, Inr item) # fileOutcomes cdn files titles categories mediaType rest db')"

definition uploadedOf :: "(nat \<times> (string + UploadedMediaItem)) list \<Rightarrow> UploadedMediaItem list" where
  "uploadedOf outcomes =
     concat (map (\<lambda>(idx, out). case out of Inl msg \<Rightarrow> [] | Inr item \<Rightarrow> [item]) outcomes)"

definition errorsOf ::
  "UploadFile list \<Rightarrow> (nat \<times> (string + UploadedMediaItem)) list \<Rightarrow> UploadError list" where
  "errorsOf files outcomes =
     concat (map (\<lambda>(idx, out). case out of
                    Inl msg \<Rightarrow> [\<lparr>err_filename = originalname (files ! idx), err_index = idx,
                                  err_error = msg\<rparr>]
                  | Inr item \<Rightarrow> []) outcomes)"

section \<open>The category validator is idempotent and insensitive to case and spacing\<close>

lemma isWhiteSpace_toLowerChar: "isWhiteSpace (toLowerChar c) = isWhiteSpace c"
  by (auto simp: isWhiteSpace_def toLowerChar_def Let_def)

lemma dropWhile_toLowerCase:
  "dropWhile isWhiteSpace (toLowerCase ys) = toLowerCase (dropWhile isWhiteSpace ys)"
  by (simp add: toLowerCase_def dropWhile_map comp_def isWhiteSpace_toLowerChar)

lemma variant_normalizes:
  "isCaseWhitespaceVariant c y \<Longrightarrow> \<forall>ch \<in> set c. \<not> isWhiteSpace ch \<Longrightarrow>
   replaceWhitespaceRuns (toLowerCase y) = c"
proof (induction c y rule: isCaseWhitespaceVariant.induct)
  case (4 c cs y ys)
  from "4.prems"(2) have nows: "\<not> isWhiteSpace c" and rest: "\<forall>ch \<in> set cs. \<not> isWhiteSpace ch"
    by simp_all
  from "4.prems"(1) consider
      (same) "toLowerChar y = c" "isCaseWhitespaceVariant cs ys"
    | (run) "c = CHR ''_''" "isWhiteSpace y"
        "isCaseWhitespaceVariant cs (dropWhile isWhiteSpace ys)"
    by auto
  then show ?case
  proof cases
    case same
    have "\<not> isWhiteSpace (toLowerChar y)" using nows same(1) by simp
    moreover have "replaceWhitespaceRuns (toLowerCase ys) = cs"
      using "4.IH"(1) same(2) rest by simp
    ultimately show ?thesis using same(1) by (simp add: toLowerCase_def)
  next
    case run
    have "replaceWhitespaceRuns (toLowerCase (dropWhile isWhiteSpace ys)) = cs"
      using "4.IH"(2) run(3) rest by simp
    then have "replaceWhitespaceRuns (dropWhile isWhiteSpace (map toLowerChar ys)) = cs"
      using dropWhile_toLowerCase [of ys] by (simp add: toLowerCase_def)
    moreover have "isWhiteSpace (toLowerChar y)"
      using run(2) by (simp add: isWhiteSpace_toLowerChar)
    ultimately show ?thesis using run(1) by (simp add: toLowerCase_def)
  qed
qed (simp_all add: toLowerCase_def)

lemma allowed_no_whitespace:
  "list_all (\<lambda>c. list_all (\<lambda>ch. \<not> isWhiteSpace ch) c) ALLOWED_CATEGORIES"
  by code_simp

lemma allowed_normal:
  "list_all (\<lambda>c. replaceWhitespaceRuns (toLowerCase c) = c) ALLOWED_CATEGORIES"
  by code_simp

lemma validateCategory_allowed:
  "c \<in> set ALLOWED_CATEGORIES \<Longrightarrow> validateCategory c = Inr c"
  using allowed_normal by (simp add: validateCategory_def list_all_iff)

lemma validateCategory_Inr:
  "validateCategory x = Inr y \<Longrightarrow> y \<in> set ALLOWED_CATEGORIES"
  by (auto simp: validateCategory_def Let_def split: if_splits)

text \<open>
  Claim C5. Validating a value that validation returned gives that value again (and a
  failure of the first validation stays that failure), for every input; and every
  mixed-case or white-space variant of an allowed category validates to that category,
  the value the category itself validates to.
\<close>

theorem validateCategory_idempotent_and_variants:
  "validateTwice x = validateCategory x \<and>
   (c \<in> set ALLOWED_CATEGORIES \<and> isCaseWhitespaceVariant c y \<longrightarrow>
      validateCategory y = Inr c \<and> validateCategory c = Inr c)"
proof (intro conjI impI)
  show "validateTwice x = validateCategory x"
  proof (cases "validateCategory x")
    case (Inl e)
    then show ?thesis by (simp add: validateTwice_def)
  next
    case (Inr z)
    then have "validateCategory z = Inr z"
      using validateCategory_Inr validateCategory_allowed by blast
    with Inr show ?thesis by (simp add: validateTwice_def)
  qed
next
  assume h: "c \<in> set ALLOWED_CATEGORIES \<and> isCaseWhitespaceVariant c y"
  then have "\<forall>ch \<in> set c. \<not> isWhiteSpace ch"
    using allowed_no_whitespace unfolding list_all_iff by blast
  with h have "replaceWhitespaceRuns (toLowerCase y) = c"
    using variant_normalizes by blast
  with h show "validateCategory y = Inr c" by (simp add: validateCategory_def)
  from h show "validateCategory c = Inr c" by (simp add: validateCategory_allowed)
qed

theorem validateCategory_idempotent_and_variants_witness:
  "''spy_x_family'' \<in> set ALLOWED_CATEGORIES \<and>
   isCaseWhitespaceVariant ''spy_x_family'' ''Spy X  FAMILY'' \<and>
   validateCategory ''Spy X  FAMILY'' = Inr ''spy_x_family'' \<and>
   validateTwice ''Spy X  FAMILY'' = Inr ''spy_x_family''"
proof -
  have a: "''spy_x_family'' \<in> set ALLOWED_CATEGORIES" by code_simp
  have b: "isCaseWhitespaceVariant ''spy_x_family'' ''Spy X  FAMILY''" by code_simp
  show ?thesis
    using a b validateCategory_idempotent_and_variants
      [of "''Spy X  FAMILY''" "''spy_x_family''" "''Spy X  FAMILY''"]
    by simp
qed

section \<open>Limits and offsets\<close>

lemma parseInt_undefined: "parseIntNumber ''undefined'' = None"
  by code_simp

text \<open>
  Claim C2. Whatever the \<open>limit\<close> parameter is, the limit in effect lies between 1 and
  200, and it is 50 when the parameter is absent; whatever the \<open>offset\<close> parameter is, the
  offset in effect is at least 0, and it is 0 when the parameter is absent.
\<close>

theorem getLimit_getOffset_clamped:
  "1 \<le> getLimit limitParam \<and> getLimit limitParam \<le> 200 \<and> getLimit QUndefined = 50 \<and>
   0 \<le> getOffset offsetParam \<and> getOffset QUndefined = 0"
  by (simp add: getLimit_def getOffset_def Let_def MAX_LIMIT_def DEFAULT_LIMIT_def
      orDefault_def toStringParam_def parseInt_undefined)

section \<open>Numbers: decimal texts and doubles\<close>

lemma decimal_digit_plain:
  assumes "isRadixDigit 10 c"
  shows "\<not> isWhiteSpace c" and "c \<noteq> CHR ''-''" and "c \<noteq> CHR ''+''"
    and "c \<noteq> CHR ''x''" and "c \<noteq> CHR ''X''"
  using assms
  by (auto simp: isRadixDigit_def digitValue_def isWhiteSpace_def Let_def split: if_splits)

lemma parseInt_decimal:
  assumes "s \<noteq> []" and "list_all (isRadixDigit 10) s"
  shows "parseInt s = Some (radixValue 10 s)"
proof -
  from assms obtain c cs where s: "s = c # cs" by (cases s) auto
  with assms(2) have c: "isRadixDigit 10 c" and cs: "list_all (isRadixDigit 10) cs" by simp_all
  have skip: "dropWhile isWhiteSpace s = s"
    using decimal_digit_plain(1) [OF c] s by simp
  have all: "takeWhile (isRadixDigit 10) s = s"
    using assms(2) by (simp add: takeWhile_eq_all_conv list_all_iff)
  show ?thesis
  proof (cases cs)
    case Nil
    with s skip all c show ?thesis
      using decimal_digit_plain [OF c]
      by (simp add: parseInt_def Let_def)
  next
    case (Cons x r)
    with cs have x: "isRadixDigit 10 x" by simp
    from Cons s skip all show ?thesis
      using decimal_digit_plain [OF c] decimal_digit_plain [OF x]
      by (simp add: parseInt_def Let_def)
  qed
qed

lemma radixValue_snoc:
  "radixValue R (Z @ [c]) =
     radixValue R Z * int R + (case digitValue c of None \<Rightarrow> 0 | Some d \<Rightarrow> int d)"
  by (simp add: radixValue_def)

lemma digitValue_decimal: "d < 10 \<Longrightarrow> digitValue (char_of (48 + d)) = Some d"
  by (simp add: digitValue_def Let_def)

lemma showNat_decimal:
  "showNat n \<noteq> [] \<and> list_all (isRadixDigit 10) (showNat n) \<and> radixValue 10 (showNat n) = int n"
proof (induction n rule: showNat.induct)
  case (1 n)
  show ?case
  proof (cases "n < 10")
    case True
    then show ?thesis
      by (simp add: showNat.simps [of n] isRadixDigit_def digitValue_decimal radixValue_def)
  next
    case False
    have d: "digitValue (char_of (48 + n mod 10)) = Some (n mod 10)"
      by (simp add: digitValue_decimal)
    then have dd: "isRadixDigit 10 (char_of (48 + n mod 10))"
      by (simp add: isRadixDigit_def)
    from False "1.IH" have ih: "list_all (isRadixDigit 10) (showNat (n div 10))"
      "radixValue 10 (showNat (n div 10)) = int (n div 10)" by simp_all
    from False have eq: "showNat n = showNat (n div 10) @ [char_of (48 + n mod 10)]"
      by (simp add: showNat.simps [of n])
    show ?thesis
      unfolding eq using ih d dd by (simp add: radixValue_snoc zdiv_int zmod_int)
  qed
qed

lemma parseInt_showNat: "parseInt (showNat n) = Some (int n)"
  using showNat_decimal [of n] parseInt_decimal [of "showNat n"] by simp

lemma bitLength_bounds:
  "0 < n \<Longrightarrow> 2 ^ (bitLength n - 1) \<le> n \<and> n < 2 ^ bitLength n"
proof (induction n rule: bitLength.induct)
  case (1 n)
  show ?case
  proof (cases "n div 2 = 0")
    case True
    with "1.prems" have n: "n = 1" by simp
    have "bitLength (1 :: int) = Suc (bitLength 0)"
      by (simp add: bitLength.simps [of 1])
    then have "bitLength (1 :: int) = 1" by (simp add: bitLength.simps [of 0])
    with n show ?thesis by simp
  next
    case False
    with "1.prems" have pos: "0 < n div 2" by simp
    from "1.prems" have b: "bitLength n = Suc (bitLength (n div 2))"
      by (simp add: bitLength.simps [of n])
    from "1.IH" "1.prems" pos
    have ih: "2 ^ (bitLength (n div 2) - 1) \<le> n div 2" "n div 2 < 2 ^ bitLength (n div 2)"
      by simp_all
    from pos have "0 < bitLength (n div 2)"
      by (simp add: bitLength.simps [of "n div 2"])
    then have s: "bitLength (n div 2) = Suc (bitLength (n div 2) - 1)" by simp
    have "2 ^ bitLength (n div 2) = 2 * (2 :: int) ^ (bitLength (n div 2) - 1)"
      by (subst s) simp
    with ih(1) have lo: "2 ^ bitLength (n div 2) \<le> n" by linarith
    from ih(2) have hi: "n < 2 * 2 ^ bitLength (n div 2)" by linarith
    from lo hi b show ?thesis by simp
  qed
qed

lemma nearestDouble_small: "\<bar>n\<bar> < 2 ^ 53 \<Longrightarrow> nearestDouble n = n"
  by (simp add: nearestDouble_def Let_def)

lemma nearestDouble_big:
  assumes "2 ^ 53 \<le> n"
  shows "2 ^ 53 \<le> nearestDouble n"
proof -
  from assms have pos: "0 < n" by (smt (verit) zero_less_power)
  let ?e = "bitLength n - 53"
  let ?q = "n div 2 ^ ?e"
  let ?m = "if 2 ^ (?e - 1) < n mod 2 ^ ?e \<or> (n mod 2 ^ ?e = 2 ^ (?e - 1) \<and> odd ?q) then ?q + 1 else ?q"
  from bitLength_bounds [OF pos] have lo: "2 ^ (bitLength n - 1) \<le> n" and hi: "n < 2 ^ bitLength n"
    by simp_all
  have b: "53 < bitLength n"
  proof (rule ccontr)
    assume "\<not> 53 < bitLength n"
    then have "bitLength n \<le> 53" by simp
    then have "(2 :: int) ^ bitLength n \<le> 2 ^ 53" by (rule power_increasing) simp
    with assms hi show False by linarith
  qed
  then have split: "bitLength n - 1 = 52 + ?e" by simp
  have "(2 :: int) ^ (bitLength n - 1) = 2 ^ 52 * 2 ^ ?e"
    unfolding split by (simp add: power_add)
  with lo have "2 ^ 52 * 2 ^ ?e \<le> n" by simp
  then have q: "2 ^ 52 \<le> ?q"
    by (metis div_mult_self_is_m mult.commute zdiv_mono1 zero_less_numeral zero_less_power
        nonzero_mult_div_cancel_right power_not_zero zero_neq_numeral less_imp_le)
  then have m: "2 ^ 52 \<le> ?m" by simp
  from b have "1 \<le> ?e" by simp
  then have "(2 :: int) ^ 1 \<le> 2 ^ ?e" by (rule power_increasing) simp
  then have e: "(2 :: int) \<le> 2 ^ ?e" by simp
  have m0: "0 \<le> ?m" by (rule order_trans [OF _ m]) simp
  have "(2 :: int) ^ 52 * 2 \<le> ?m * 2 ^ ?e"
    by (rule mult_mono [OF m e m0]) simp
  then have r: "2 ^ 53 \<le> ?m * 2 ^ ?e" by simp
  from assms pos have "nearestDouble n = ?m * 2 ^ ?e"
    by (simp add: nearestDouble_def Let_def)
  with r show ?thesis by simp
qed

lemma nearestDouble_minus: "nearestDouble (- n) = - nearestDouble n"
  by (simp add: nearestDouble_def Let_def sgn_minus)

lemma nearestDouble_below:
  assumes "n \<le> - (2 ^ 53)"
  shows "nearestDouble n \<le> - (2 ^ 53)"
proof -
  from assms have "2 ^ 53 \<le> - n" by simp
  from nearestDouble_big [OF this] show ?thesis by (simp add: nearestDouble_minus)
qed

lemma nearestDouble_range:
  assumes "lo \<le> n" and "n \<le> hi" and "- (2 ^ 53) < lo" and "hi < 2 ^ 53"
  shows "nearestDouble n = n"
  using assms by (intro nearestDouble_small) simp

lemma nearestDouble_less_iff:
  assumes "- (2 ^ 53) < k" and "k \<le> 2 ^ 53"
  shows "nearestDouble n < k \<longleftrightarrow> n < k"
proof (cases "\<bar>n\<bar> < 2 ^ 53")
  case True
  then show ?thesis by (simp add: nearestDouble_small)
next
  case False
  then consider "2 ^ 53 \<le> n" | "n \<le> - (2 ^ 53)" by linarith
  then show ?thesis
  proof cases
    case 1
    with nearestDouble_big [OF 1] assms show ?thesis by linarith
  next
    case 2
    with nearestDouble_below [OF 2] assms show ?thesis by linarith
  qed
qed

lemma count_parsed:
  assumes "0 \<le> n" and "n < 2 ^ 53"
  shows "orDefault (parseIntNumber (countText n)) 0 = n"
proof -
  from assms have "parseIntNumber (countText n) = Some n"
    by (simp add: parseIntNumber_def countText_def parseInt_showNat nearestDouble_small)
  then show ?thesis by (simp add: orDefault_def)
qed

section \<open>Pages of the list, search and category endpoints\<close>

lemma length_insertBy: "length (insertBy earlier x xs) = Suc (length xs)"
  by (induction xs) auto

lemma length_orderBy: "length (orderBy earlier xs) = length xs"
  by (induction xs) (auto simp: orderBy_def length_insertBy)

lemma set_insertBy: "set (insertBy earlier x xs) = insert x (set xs)"
  by (induction xs) auto

lemma set_orderBy: "set (orderBy earlier xs) = set xs"
  by (induction xs) (auto simp: orderBy_def set_insertBy)

lemma limitOffset_page:
  assumes "1 \<le> l" and "0 \<le> off"
  shows "(off < int (length xs) \<longrightarrow>
            int (length (limitOffset l off xs)) = min (int (length xs) - off) l \<and>
            length (limitOffset l off xs) \<noteq> 0) \<and>
         (int (length xs) \<le> off \<longrightarrow> length (limitOffset l off xs) = 0)"
  using assms by (auto simp: limitOffset_def min_def)

lemma getLimit_pos: "1 \<le> getLimit p"
  by (simp add: getLimit_def Let_def MAX_LIMIT_def)

lemma getLimit_le: "getLimit p \<le> 200"
  by (simp add: getLimit_def Let_def MAX_LIMIT_def)

lemma getOffset_nonneg: "0 \<le> getOffset p"
  by (simp add: getOffset_def Let_def)

lemma field_respond: "field k (respond st fs) = map_of fs k"
  by (simp add: field_def respond_def)

lemma status_respond: "status (respond st fs) = st"
  by (simp add: respond_def)

lemma limitOffsetClause_runs:
  assumes "1 \<le> l" and "l \<le> 200" and "0 \<le> off" and "off \<le> BIGINT_MAX"
  shows "limitOffsetClause l off xs = Inr (limitOffset l off xs)"
  using assms by (simp add: limitOffsetClause_def bigintParam_def BIGINT_MAX_def)

lemma limitOffsetClause_rejects:
  assumes "1 \<le> l" and "l \<le> 200" and "BIGINT_MAX < off"
  shows "limitOffsetClause l off xs = Inl ''value is out of range for type bigint''"
  using assms by (simp add: limitOffsetClause_def bigintParam_def BIGINT_MAX_def)

lemma count_within_key:
  assumes "tableFitsKey t"
  shows "int (length (filter P (rows t))) \<le> 4294967296"
proof -
  have "int (length (filter P (rows t))) \<le> int (length (rows t))" by simp
  with assms show ?thesis unfolding tableFitsKey_def by linarith
qed

lemma count_text_parsed:
  assumes "tableFitsKey t"
  shows "orDefault (parseIntNumber (countText (int (length (filter P (rows t)))))) 0 =
         int (length (filter P (rows t)))"
  using count_within_key [OF assms, of P] by (intro count_parsed) simp_all

lemma count_below_bigint:
  assumes "tableFitsKey t" and "off < int (length (filter P (rows t)))"
  shows "off \<le> BIGINT_MAX"
  using count_within_key [OF assms(1), of P] assms(2) by (simp add: BIGINT_MAX_def)

lemma out_of_range_not_search: "\<not> includesStr ''value is out of range for type bigint'' ''Search query''"
  by code_simp

lemma nul_not_search: "\<not> includesStr ''invalid byte sequence for encoding UTF8: 0x00'' ''Search query''"
  by code_simp

lemma out_of_range_not_category:
  "\<not> startsWith ''value is out of range for type bigint'' ''Invalid category''"
  by code_simp

lemma toLowerChar_nul: "toLowerChar c = CHR 0x00 \<longleftrightarrow> c = CHR 0x00"
proof
  assume z: "toLowerChar c = CHR 0x00"
  have "(of_char (toLowerChar c) :: nat) =
        (if (65 \<le> (of_char c :: nat) \<and> (of_char c :: nat) \<le> 90) \<or>
            (192 \<le> (of_char c :: nat) \<and> (of_char c :: nat) \<le> 222 \<and> (of_char c :: nat) \<noteq> 215)
         then of_char c + 32 else of_char c)"
    by (auto simp: toLowerChar_def Let_def)
  with z have "(of_char c :: nat) = 0" by (auto split: if_splits)
  then have "(of_char c :: nat) = of_char (CHR 0x00)" by simp
  then show "c = CHR 0x00" by (simp only: of_char_eq_iff)
next
  assume "c = CHR 0x00"
  then show "toLowerChar c = CHR 0x00" by (simp add: toLowerChar_def)
qed

lemma nul_in_pattern:
  "CHR 0x00 \<in> set (''%'' @ toLowerCase sq @ ''%'') \<longleftrightarrow> CHR 0x00 \<in> set sq"
proof -
  have "CHR 0x00 \<in> toLowerChar ` set sq \<longleftrightarrow> CHR 0x00 \<in> set sq"
    using toLowerChar_nul by (metis (no_types, lifting) image_iff)
  then show ?thesis by (simp add: toLowerCase_def)
qed

lemma allowed_no_nul: "list_all (\<lambda>c. CHR 0x00 \<notin> set c) ALLOWED_CATEGORIES"
  by code_simp

lemma validated_no_nul:
  assumes "validateCategory cp = Inr cat"
  shows "CHR 0x00 \<notin> set cat"
  using validateCategory_Inr [OF assms] allowed_no_nul unfolding list_all_iff by blast

lemma get_all_page:
  assumes "tableFitsKey t"
  shows
  "(getOffset op < countAll (typeName mt) t \<longrightarrow>
      answersPage (get_all mt (Up t) lp op)
        (min (countAll (typeName mt) t - getOffset op) (getLimit lp)) (countAll (typeName mt) t)) \<and>
   (countAll (typeName mt) t \<le> getOffset op \<and> getOffset op \<le> BIGINT_MAX \<longrightarrow>
      answersEmpty (get_all mt (Up t) lp op) \<and>
      field ''returned'' (get_all mt (Up t) lp op) = Some (JNum 0)) \<and>
   (BIGINT_MAX < getOffset op \<longrightarrow> status (get_all mt (Up t) lp op) = 500)"
proof -
  let ?xs = "orderByCreatedAtDesc (filter (isVisibleOfType (typeName mt)) (rows t))"
  have len: "int (length ?xs) = countAll (typeName mt) t"
    by (simp add: countAll_def orderByCreatedAtDesc_def length_orderBy)
  note page = limitOffset_page [OF getLimit_pos [of lp] getOffset_nonneg [of op], of ?xs,
      unfolded len]
  have total: "orDefault (parseIntNumber (countText (countAll (typeName mt) t))) 0 =
               countAll (typeName mt) t"
    unfolding countAll_def by (rule count_text_parsed [OF assms])
  show ?thesis
  proof (cases "getOffset op \<le> BIGINT_MAX")
    case True
    have sel: "selectAll (typeName mt) (getLimit lp) (getOffset op) t =
               Inr (limitOffset (getLimit lp) (getOffset op) ?xs)"
      unfolding selectAll_def
      by (rule limitOffsetClause_runs [OF getLimit_pos getLimit_le getOffset_nonneg True])
    from True page show ?thesis
      by (simp add: get_all_def Let_def query_def sel total field_respond status_respond
          answersPage_def answersEmpty_def)
  next
    case False
    then have big: "BIGINT_MAX < getOffset op" by simp
    have sel: "selectAll (typeName mt) (getLimit lp) (getOffset op) t =
               Inl ''value is out of range for type bigint''"
      unfolding selectAll_def
      by (rule limitOffsetClause_rejects [OF getLimit_pos getLimit_le big])
    from count_below_bigint [OF assms, of "getOffset op" "isVisibleOfType (typeName mt)"] big
    have "\<not> getOffset op < countAll (typeName mt) t"
      by (auto simp: countAll_def)
    with big show ?thesis
      by (simp add: get_all_def Let_def query_def sel status_respond)
  qed
qed

lemma searchLimit_pos: "1 \<le> min (getLimit lp) SEARCH_LIMIT"
  using getLimit_pos [of lp] by (simp add: SEARCH_LIMIT_def)

lemma searchLimit_le: "min (getLimit lp) SEARCH_LIMIT \<le> 200"
  using getLimit_le [of lp] by (simp add: SEARCH_LIMIT_def)

lemma get_search_page:
  assumes "validateSearchQuery q = Inr sq" and "tableFitsKey t"
  shows
  "(CHR 0x00 \<notin> set sq \<and>
    getOffset op < countSearch lk (typeName mt) (''%'' @ toLowerCase sq @ ''%'') t \<longrightarrow>
      answersPage (get_search lk mt (Up t) q lp op)
        (min (countSearch lk (typeName mt) (''%'' @ toLowerCase sq @ ''%'') t - getOffset op)
             (min (getLimit lp) SEARCH_LIMIT))
        (countSearch lk (typeName mt) (''%'' @ toLowerCase sq @ ''%'') t) \<and>
      field ''limit'' (get_search lk mt (Up t) q lp op) =
        Some (JNum (min (getLimit lp) SEARCH_LIMIT))) \<and>
   (CHR 0x00 \<notin> set sq \<and>
    countSearch lk (typeName mt) (''%'' @ toLowerCase sq @ ''%'') t \<le> getOffset op \<and>
    getOffset op \<le> BIGINT_MAX \<longrightarrow>
      answersEmpty (get_search lk mt (Up t) q lp op) \<and>
      field ''returned'' (get_search lk mt (Up t) q lp op) = None \<and>
      field ''total'' (get_search lk mt (Up t) q lp op) = Some (JNum 0)) \<and>
   (CHR 0x00 \<in> set sq \<or> BIGINT_MAX < getOffset op \<longrightarrow>
      status (get_search lk mt (Up t) q lp op) = 500)"
proof -
  let ?pat = "''%'' @ toLowerCase sq @ ''%''"
  let ?xs = "orderByViewsDesc (filter (searchMatches lk (typeName mt) ?pat) (rows t))"
  let ?l = "min (getLimit lp) SEARCH_LIMIT"
  have len: "int (length ?xs) = countSearch lk (typeName mt) ?pat t"
    by (simp add: countSearch_def orderByViewsDesc_def length_orderBy)
  note page = limitOffset_page [OF searchLimit_pos [of lp] getOffset_nonneg [of op], of ?xs,
      unfolded len]
  have total: "orDefault (parseIntNumber (countText (countSearch lk (typeName mt) ?pat t))) 0 =
               countSearch lk (typeName mt) ?pat t"
    unfolding countSearch_def by (rule count_text_parsed [OF assms(2)])
  show ?thesis
  proof (cases "CHR 0x00 \<in> set sq")
    case True
    then have "CHR 0x00 \<in> set ?pat" by (simp only: nul_in_pattern)
    then have sel: "selectSearch lk (typeName mt) ?pat ?l (getOffset op) t =
                    Inl ''invalid byte sequence for encoding UTF8: 0x00''"
      by (simp only: selectSearch_def textParam_def if_True)
    from True assms(1) show ?thesis
      by (simp add: get_search_def Let_def query_def sel searchCatch_def nul_not_search
          status_respond del: append.simps)
  next
    case nonul: False
    then have "CHR 0x00 \<notin> set ?pat" by (simp only: nul_in_pattern not_False_eq_True)
    then have tp: "\<And>rest :: string + media list. textParam ?pat rest = rest"
      and tp': "\<And>rest :: string + string. textParam ?pat rest = rest"
      by (simp_all only: textParam_def if_False)
    show ?thesis
    proof (cases "getOffset op \<le> BIGINT_MAX")
      case True
      have sel: "selectSearch lk (typeName mt) ?pat ?l (getOffset op) t =
                 Inr (limitOffset ?l (getOffset op) ?xs)"
        unfolding selectSearch_def tp
        by (rule limitOffsetClause_runs [OF searchLimit_pos searchLimit_le getOffset_nonneg True])
      from True nonul page assms(1) show ?thesis
        by (simp add: get_search_def Let_def query_def sel tp' total field_respond status_respond
            answersPage_def answersEmpty_def del: append.simps)
    next
      case False
      then have big: "BIGINT_MAX < getOffset op" by simp
      have sel: "selectSearch lk (typeName mt) ?pat ?l (getOffset op) t =
                 Inl ''value is out of range for type bigint''"
        unfolding selectSearch_def tp
        by (rule limitOffsetClause_rejects [OF searchLimit_pos searchLimit_le big])
      from count_below_bigint [OF assms(2), of "getOffset op" "searchMatches lk (typeName mt) ?pat"] big
      have "\<not> getOffset op < countSearch lk (typeName mt) ?pat t"
        by (auto simp: countSearch_def simp del: append.simps)
      with big nonul assms(1) show ?thesis
        by (simp add: get_search_def Let_def query_def sel searchCatch_def out_of_range_not_search
            status_respond del: append.simps)
    qed
  qed
qed

lemma get_by_category_page:
  assumes "validateCategory cp = Inr cat" and "tableFitsKey t"
  shows
  "(getOffset op < countCategory cat (typeName mt) t \<longrightarrow>
      answersPage (get_by_category mt (Up t) cp lp op)
        (min (countCategory cat (typeName mt) t - getOffset op) (getLimit lp))
        (countCategory cat (typeName mt) t)) \<and>
   (countCategory cat (typeName mt) t \<le> getOffset op \<and> getOffset op \<le> BIGINT_MAX \<longrightarrow>
      answersEmpty (get_by_category mt (Up t) cp lp op) \<and>
      field ''returned'' (get_by_category mt (Up t) cp lp op) = None \<and>
      field ''total'' (get_by_category mt (Up t) cp lp op) = Some (JNum 0)) \<and>
   (BIGINT_MAX < getOffset op \<longrightarrow> status (get_by_category mt (Up t) cp lp op) = 500)"
proof -
  let ?xs = "orderByCreatedAtDesc (filter (inCategoryOfType cat (typeName mt)) (rows t))"
  have len: "int (length ?xs) = countCategory cat (typeName mt) t"
    by (simp add: countCategory_def orderByCreatedAtDesc_def length_orderBy)
  note page = limitOffset_page [OF getLimit_pos [of lp] getOffset_nonneg [of op], of ?xs,
      unfolded len]
  have total: "orDefault (parseIntNumber (countText (countCategory cat (typeName mt) t))) 0 =
               countCategory cat (typeName mt) t"
    unfolding countCategory_def by (rule count_text_parsed [OF assms(2)])
  from validated_no_nul [OF assms(1)]
  have tp: "\<And>rest :: string + media list. textParam cat rest = rest"
    and tp': "\<And>rest :: string + string. textParam cat rest = rest"
    by (simp_all add: textParam_def)
  show ?thesis
  proof (cases "getOffset op \<le> BIGINT_MAX")
    case True
    have sel: "selectCategory cat (typeName mt) (getLimit lp) (getOffset op) t =
               Inr (limitOffset (getLimit lp) (getOffset op) ?xs)"
      unfolding selectCategory_def tp
      by (rule limitOffsetClause_runs [OF getLimit_pos getLimit_le getOffset_nonneg True])
    from True page assms(1) show ?thesis
      by (simp add: get_by_category_def Let_def query_def sel tp' total field_respond
          status_respond answersPage_def answersEmpty_def)
  next
    case False
    then have big: "BIGINT_MAX < getOffset op" by simp
    have sel: "selectCategory cat (typeName mt) (getLimit lp) (getOffset op) t =
               Inl ''value is out of range for type bigint''"
      unfolding selectCategory_def tp
      by (rule limitOffsetClause_rejects [OF getLimit_pos getLimit_le big])
    from count_below_bigint [OF assms(2), of "getOffset op" "inCategoryOfType cat (typeName mt)"] big
    have "\<not> getOffset op < countCategory cat (typeName mt) t"
      by (auto simp: countCategory_def)
    with big assms(1) show ?thesis
      by (simp add: get_by_category_def Let_def query_def sel categoryCatch_def
          out_of_range_not_category status_respond)
  qed
qed

text \<open>
  Claim C1, as stated, fails: with three visible images, limit 2 and offset 2, the
  response of \<open>/all-images\<close> returns one row, not \<open>min 3 2 = 2\<close>.
\<close>

theorem returned_is_not_min_total_limit_counterexample:
  "field ''returned'' (get_all Image (Up exampleTable) (QString ''2'') (QString ''2'')) = Some (JNum 1) \<and>
   min (countAll ''image'' exampleTable) (getLimit (QString ''2'')) = 2"
  by code_simp

text \<open>
  Claim C1, amended. On a database that answers, for a table the schema allows, with a
  valid search text and a valid category: when the offset is below the total of
  matching rows, the list, search and category endpoints answer 200 with
  \<open>min (total - offset) limit\<close> rows (for search the limit is the one capped at 100, and
  the text must not hold the character 0), \<open>returned\<close> being that number and \<open>total\<close> the
  total; when the offset is at or beyond the total and within the 64 bits of a \<open>bigint\<close>,
  they answer 404 with no rows, with \<open>returned\<close> 0 on the list endpoints and no
  \<open>returned\<close> field on the search and category endpoints; and when the offset is beyond
  the 64 bits, or the search text holds the character 0, the database rejects the
  statement and they answer 500.
\<close>

theorem page_is_min_of_remaining_and_limit:
  assumes "validateSearchQuery q = Inr sq" and "validateCategory cp = Inr cat"
    and "tableFitsKey t"
  shows
  "((getOffset op < countAll (typeName mt) t \<longrightarrow>
       answersPage (get_all mt (Up t) lp op)
         (min (countAll (typeName mt) t - getOffset op) (getLimit lp)) (countAll (typeName mt) t)) \<and>
    (countAll (typeName mt) t \<le> getOffset op \<and> getOffset op \<le> BIGINT_MAX \<longrightarrow>
       answersEmpty (get_all mt (Up t) lp op) \<and>
       field ''returned'' (get_all mt (Up t) lp op) = Some (JNum 0)) \<and>
    (BIGINT_MAX < getOffset op \<longrightarrow> status (get_all mt (Up t) lp op) = 500)) \<and>
   ((CHR 0x00 \<notin> set sq \<and>
     getOffset op < countSearch lk (typeName mt) (''%'' @ toLowerCase sq @ ''%'') t \<longrightarrow>
       answersPage (get_search lk mt (Up t) q lp op)
         (min (countSearch lk (typeName mt) (''%'' @ toLowerCase sq @ ''%'') t - getOffset op)
              (min (getLimit lp) SEARCH_LIMIT))
         (countSearch lk (typeName mt) (''%'' @ toLowerCase sq @ ''%'') t) \<and>
       field ''limit'' (get_search lk mt (Up t) q lp op) =
         Some (JNum (min (getLimit lp) SEARCH_LIMIT))) \<and>
    (CHR 0x00 \<notin> set sq \<and>
     countSearch lk (typeName mt) (''%'' @ toLowerCase sq @ ''%'') t \<le> getOffset op \<and>
     getOffset op \<le> BIGINT_MAX \<longrightarrow>
       answersEmpty (get_search lk mt (Up t) q lp op) \<and>
       field ''returned'' (get_search lk mt (Up t) q lp op) = None \<and>
       field ''total'' (get_search lk mt (Up t) q lp op) = Some (JNum 0)) \<and>
    (CHR 0x00 \<in> set sq \<or> BIGINT_MAX < getOffset op \<longrightarrow>
       status (get_search lk mt (Up t) q lp op) = 500)) \<and>
   ((getOffset op < countCategory cat (typeName mt) t \<longrightarrow>
       answersPage (get_by_category mt (Up t) cp lp op)
         (min (countCategory cat (typeName mt) t - getOffset op) (getLimit lp))
         (countCategory cat (typeName mt) t)) \<and>
    (countCategory cat (typeName mt) t \<le> getOffset op \<and> getOffset op \<le> BIGINT_MAX \<longrightarrow>
       answersEmpty (get_by_category mt (Up t) cp lp op) \<and>
       field ''returned'' (get_by_category mt (Up t) cp lp op) = None \<and>
       field ''total'' (get_by_category mt (Up t) cp lp op) = Some (JNum 0)) \<and>
    (BIGINT_MAX < getOffset op \<longrightarrow> status (get_by_category mt (Up t) cp lp op) = 500))"
proof (rule conjI [OF _ conjI])
  show "(getOffset op < countAll (typeName mt) t \<longrightarrow>
      answersPage (get_all mt (Up t) lp op)
        (min (countAll (typeName mt) t - getOffset op) (getLimit lp)) (countAll (typeName mt) t)) \<and>
   (countAll (typeName mt) t \<le> getOffset op \<and> getOffset op \<le> BIGINT_MAX \<longrightarrow>
      answersEmpty (get_all mt (Up t) lp op) \<and>
      field ''returned'' (get_all mt (Up t) lp op) = Some (JNum 0)) \<and>
   (BIGINT_MAX < getOffset op \<longrightarrow> status (get_all mt (Up t) lp op) = 500)"
    by (rule get_all_page [OF assms(3)])
  show "(CHR 0x00 \<notin> set sq \<and>
    getOffset op < countSearch lk (typeName mt) (''%'' @ toLowerCase sq @ ''%'') t \<longrightarrow>
      answersPage (get_search lk mt (Up t) q lp op)
        (min (countSearch lk (typeName mt) (''%'' @ toLowerCase sq @ ''%'') t - getOffset op)
             (min (getLimit lp) SEARCH_LIMIT))
        (countSearch lk (typeName mt) (''%'' @ toLowerCase sq @ ''%'') t) \<and>
      field ''limit'' (get_search lk mt (Up t) q lp op) =
        Some (JNum (min (getLimit lp) SEARCH_LIMIT))) \<and>
   (CHR 0x00 \<notin> set sq \<and>
    countSearch lk (typeName mt) (''%'' @ toLowerCase sq @ ''%'') t \<le> getOffset op \<and>
    getOffset op \<le> BIGINT_MAX \<longrightarrow>
      answersEmpty (get_search lk mt (Up t) q lp op) \<and>
      field ''returned'' (get_search lk mt (Up t) q lp op) = None \<and>
      field ''total'' (get_search lk mt (Up t) q lp op) = Some (JNum 0)) \<and>
   (CHR 0x00 \<in> set sq \<or> BIGINT_MAX < getOffset op \<longrightarrow>
      status (get_search lk mt (Up t) q lp op) = 500)"
    by (rule get_search_page [OF assms(1) assms(3)])
  show "(getOffset op < countCategory cat (typeName mt) t \<longrightarrow>
      answersPage (get_by_category mt (Up t) cp lp op)
        (min (countCategory cat (typeName mt) t - getOffset op) (getLimit lp))
        (countCategory cat (typeName mt) t)) \<and>
   (countCategory cat (typeName mt) t \<le> getOffset op \<and> getOffset op \<le> BIGINT_MAX \<longrightarrow>
      answersEmpty (get_by_category mt (Up t) cp lp op) \<and>
      field ''returned'' (get_by_category mt (Up t) cp lp op) = None \<and>
      field ''total'' (get_by_category mt (Up t) cp lp op) = Some (JNum 0)) \<and>
   (BIGINT_MAX < getOffset op \<longrightarrow> status (get_by_category mt (Up t) cp lp op) = 500)"
    by (rule get_by_category_page [OF assms(2) assms(3)])
qed

theorem page_is_min_of_remaining_and_limit_witness:
  "validateSearchQuery (QString ''naruto'') = Inr ''naruto'' \<and>
   validateCategory ''Naruto'' = Inr ''naruto'' \<and> tableFitsKey exampleTable \<and>
   answersPage (get_all Image (Up exampleTable) (QString ''2'') (QString ''2'')) 1 3 \<and>
   answersEmpty (get_search lowerLikeLatin Image (Up exampleTable) (QString ''naruto'')
                   (QString ''2'') (QString ''2'')) \<and>
   answersEmpty (get_by_category Image (Up exampleTable) ''Naruto'' (QString ''2'') (QString ''2'')) \<and>
   answersEmpty (get_all Image (Up exampleTable) (QString ''2'') (QString ''7'')) \<and>
   answersPage (get_search lowerLikeLatin Image (Up exampleTable) (QString ''naruto'')
                  (QString ''2'') (QString ''1'')) 1 2 \<and>
   answersPage (get_by_category Image (Up exampleTable) ''Naruto'' (QString ''2'') (QString ''1'')) 1 2 \<and>
   BIGINT_MAX < getOffset (QString ''99999999999999999999'') \<and>
   status (get_all Image (Up exampleTable) (QString ''2'') (QString ''99999999999999999999'')) = 500 \<and>
   status (get_search lowerLikeLatin Image (Up exampleTable) (QString ''naruto'')
             (QString ''2'') (QString ''99999999999999999999'')) = 500 \<and>
   status (get_by_category Image (Up exampleTable) ''Naruto'' (QString ''2'')
             (QString ''99999999999999999999'')) = 500 \<and>
   validateSearchQuery (QString [CHR 0x00]) = Inr [CHR 0x00] \<and>
   status (get_search lowerLikeLatin Image (Up exampleTable) (QString [CHR 0x00])
             (QString ''2'') (QString ''2'')) = 500"
proof -
  have q: "validateSearchQuery (QString ''naruto'') = Inr ''naruto''" by code_simp
  have qn: "validateSearchQuery (QString [CHR 0x00]) = Inr [CHR 0x00]" by code_simp
  have c: "validateCategory ''Naruto'' = Inr ''naruto''" by code_simp
  have k: "tableFitsKey exampleTable" by code_simp
  note at2 = page_is_min_of_remaining_and_limit [OF q c k, where op = "QString ''2''"
      and mt = Image and lp = "QString ''2''" and lk = lowerLikeLatin]
  note at1 = page_is_min_of_remaining_and_limit [OF q c k, where op = "QString ''1''"
      and mt = Image and lp = "QString ''2''" and lk = lowerLikeLatin]
  note at7 = page_is_min_of_remaining_and_limit [OF q c k, where op = "QString ''7''"
      and mt = Image and lp = "QString ''2''" and lk = lowerLikeLatin]
  note big = page_is_min_of_remaining_and_limit [OF q c k,
      where op = "QString ''99999999999999999999''"
      and mt = Image and lp = "QString ''2''" and lk = lowerLikeLatin]
  note nul = page_is_min_of_remaining_and_limit [OF qn c k, where op = "QString ''2''"
      and mt = Image and lp = "QString ''2''" and lk = lowerLikeLatin]
  have n_all: "countAll (typeName Image) exampleTable = 3" by code_simp
  have n_search:
    "countSearch lowerLikeLatin (typeName Image) (''%'' @ toLowerCase ''naruto'' @ ''%'') exampleTable = 2"
    by code_simp
  have n_cat: "countCategory ''naruto'' (typeName Image) exampleTable = 2" by code_simp
  have l: "getLimit (QString ''2'') = 2" by code_simp
  have o1: "getOffset (QString ''1'') = 1" by code_simp
  have o2: "getOffset (QString ''2'') = 2" by code_simp
  have o7: "getOffset (QString ''7'') = 7" by code_simp
  have ob: "BIGINT_MAX < getOffset (QString ''99999999999999999999'')" by code_simp
  have bm: "BIGINT_MAX = 9223372036854775807" by (simp add: BIGINT_MAX_def)
  have sl: "SEARCH_LIMIT = 100" by (simp add: SEARCH_LIMIT_def)
  have nonul: "CHR 0x00 \<notin> set ''naruto''" by simp
  have p1: "answersPage (get_all Image (Up exampleTable) (QString ''2'') (QString ''2'')) 1 3"
    using at2 unfolding n_all l o2 by simp
  have p2: "answersEmpty (get_search lowerLikeLatin Image (Up exampleTable) (QString ''naruto'')
                   (QString ''2'') (QString ''2''))"
    using at2 nonul unfolding n_search o2 bm by simp
  have p3: "answersEmpty (get_by_category Image (Up exampleTable) ''Naruto'' (QString ''2'') (QString ''2''))"
    using at2 unfolding n_cat o2 bm by simp
  have p4: "answersEmpty (get_all Image (Up exampleTable) (QString ''2'') (QString ''7''))"
    using at7 unfolding n_all o7 bm by simp
  have p5: "answersPage (get_search lowerLikeLatin Image (Up exampleTable) (QString ''naruto'')
                  (QString ''2'') (QString ''1'')) 1 2"
    using at1 nonul unfolding n_search l o1 sl by simp
  have p6: "answersPage (get_by_category Image (Up exampleTable) ''Naruto'' (QString ''2'') (QString ''1'')) 1 2"
    using at1 unfolding n_cat l o1 by simp
  have b1: "status (get_all Image (Up exampleTable) (QString ''2'') (QString ''99999999999999999999'')) = 500"
    using big ob by blast
  have b2: "status (get_search lowerLikeLatin Image (Up exampleTable) (QString ''naruto'')
             (QString ''2'') (QString ''99999999999999999999'')) = 500"
    using big ob by blast
  have b3: "status (get_by_category Image (Up exampleTable) ''Naruto'' (QString ''2'')
             (QString ''99999999999999999999'')) = 500"
    using big ob by blast
  have b4: "status (get_search lowerLikeLatin Image (Up exampleTable) (QString [CHR 0x00])
             (QString ''2'') (QString ''2'')) = 500"
    using nul by simp
  from q c k p1 p2 p3 p4 p5 p6 ob b1 b2 b3 qn b4 show ?thesis by blast
qed

section \<open>Search: the cap of 100 and the reported total\<close>

lemma getLimit_of_parsed:
  "parseInt (toStringParam lp) = Some k \<Longrightarrow> 1 \<le> k \<Longrightarrow> k \<le> 200 \<Longrightarrow> getLimit lp = k"
  by (simp add: getLimit_def Let_def orDefault_def MAX_LIMIT_def parseIntNumber_def
      nearestDouble_small)

text \<open>
  Claim C7, as stated, fails in its second half: two visible images match \<open>naruto\<close>, and
  the request with offset 2 is answered with \<open>total\<close> 0.
\<close>

theorem search_total_not_reported_counterexample:
  "countSearch lowerLikeLatin ''image'' ''%naruto%'' exampleTable = 2 \<and>
   field ''total'' (get_search lowerLikeLatin Image (Up exampleTable) (QString ''naruto'')
                      QUndefined (QString ''2'')) = Some (JNum 0)"
  by code_simp

text \<open>
  Claim C7, amended. For a search with a valid text on a database that answers, for a
  table the schema allows: the limit in effect is the general one capped at 100, and it
  is 100 for a requested limit from 101 to 200. While the text does not hold the
  character 0: a page that is not empty is a 200 response of at most 100 rows that
  carries this limit and the total of matching rows; an empty page, which is every page
  at or beyond the total with an offset within the 64 bits of a \<open>bigint\<close>, is a 404
  response whose \<open>total\<close> is 0. When the text holds the character 0, or the offset is
  beyond the 64 bits, the database rejects the statement and the response is 500.
\<close>

theorem search_limit_capped_total_on_page:
  assumes "validateSearchQuery q = Inr sq" and "tableFitsKey t"
  shows
  "min (getLimit lp) SEARCH_LIMIT \<le> 100 \<and>
   (parseInt (toStringParam lp) = Some k \<and> 101 \<le> k \<and> k \<le> 200 \<longrightarrow>
      getLimit lp = k \<and> min (getLimit lp) SEARCH_LIMIT = 100) \<and>
   (CHR 0x00 \<notin> set sq \<and>
    getOffset op < countSearch lk (typeName mt) (''%'' @ toLowerCase sq @ ''%'') t \<longrightarrow>
      answersPage (get_search lk mt (Up t) q lp op)
        (min (countSearch lk (typeName mt) (''%'' @ toLowerCase sq @ ''%'') t - getOffset op)
             (min (getLimit lp) SEARCH_LIMIT))
        (countSearch lk (typeName mt) (''%'' @ toLowerCase sq @ ''%'') t) \<and>
      field ''limit'' (get_search lk mt (Up t) q lp op) =
        Some (JNum (min (getLimit lp) SEARCH_LIMIT)) \<and>
      min (countSearch lk (typeName mt) (''%'' @ toLowerCase sq @ ''%'') t - getOffset op)
          (min (getLimit lp) SEARCH_LIMIT) \<le> 100) \<and>
   (CHR 0x00 \<notin> set sq \<and>
    countSearch lk (typeName mt) (''%'' @ toLowerCase sq @ ''%'') t \<le> getOffset op \<and>
    getOffset op \<le> BIGINT_MAX \<longrightarrow>
      answersEmpty (get_search lk mt (Up t) q lp op) \<and>
      field ''returned'' (get_search lk mt (Up t) q lp op) = None \<and>
      field ''total'' (get_search lk mt (Up t) q lp op) = Some (JNum 0)) \<and>
   (CHR 0x00 \<in> set sq \<or> BIGINT_MAX < getOffset op \<longrightarrow>
      status (get_search lk mt (Up t) q lp op) = 500)"
proof -
  have cap: "min (getLimit lp) SEARCH_LIMIT \<le> 100"
    by (simp add: SEARCH_LIMIT_def)
  have lim: "parseInt (toStringParam lp) = Some k \<and> 101 \<le> k \<and> k \<le> 200 \<longrightarrow>
      getLimit lp = k \<and> min (getLimit lp) SEARCH_LIMIT = 100"
  proof
    assume k: "parseInt (toStringParam lp) = Some k \<and> 101 \<le> k \<and> k \<le> 200"
    then have "getLimit lp = k" by (simp add: getLimit_of_parsed)
    with k show "getLimit lp = k \<and> min (getLimit lp) SEARCH_LIMIT = 100"
      by (simp add: SEARCH_LIMIT_def)
  qed
  note s = get_search_page [OF assms, of op lk mt lp]
  from cap have small:
    "min (countSearch lk (typeName mt) (''%'' @ toLowerCase sq @ ''%'') t - getOffset op)
          (min (getLimit lp) SEARCH_LIMIT) \<le> 100"
    by simp
  from s have page: "CHR 0x00 \<notin> set sq \<and>
    getOffset op < countSearch lk (typeName mt) (''%'' @ toLowerCase sq @ ''%'') t \<longrightarrow>
      answersPage (get_search lk mt (Up t) q lp op)
        (min (countSearch lk (typeName mt) (''%'' @ toLowerCase sq @ ''%'') t - getOffset op)
             (min (getLimit lp) SEARCH_LIMIT))
        (countSearch lk (typeName mt) (''%'' @ toLowerCase sq @ ''%'') t) \<and>
      field ''limit'' (get_search lk mt (Up t) q lp op) =
        Some (JNum (min (getLimit lp) SEARCH_LIMIT))"
    by blast
  from s have empty: "CHR 0x00 \<notin> set sq \<and>
    countSearch lk (typeName mt) (''%'' @ toLowerCase sq @ ''%'') t \<le> getOffset op \<and>
    getOffset op \<le> BIGINT_MAX \<longrightarrow>
      answersEmpty (get_search lk mt (Up t) q lp op) \<and>
      field ''returned'' (get_search lk mt (Up t) q lp op) = None \<and>
      field ''total'' (get_search lk mt (Up t) q lp op) = Some (JNum 0)"
    by blast
  from s have rej: "CHR 0x00 \<in> set sq \<or> BIGINT_MAX < getOffset op \<longrightarrow>
      status (get_search lk mt (Up t) q lp op) = 500"
    by blast
  from page small have page': "CHR 0x00 \<notin> set sq \<and>
    getOffset op < countSearch lk (typeName mt) (''%'' @ toLowerCase sq @ ''%'') t \<longrightarrow>
      answersPage (get_search lk mt (Up t) q lp op)
        (min (countSearch lk (typeName mt) (''%'' @ toLowerCase sq @ ''%'') t - getOffset op)
             (min (getLimit lp) SEARCH_LIMIT))
        (countSearch lk (typeName mt) (''%'' @ toLowerCase sq @ ''%'') t) \<and>
      field ''limit'' (get_search lk mt (Up t) q lp op) =
        Some (JNum (min (getLimit lp) SEARCH_LIMIT)) \<and>
      min (countSearch lk (typeName mt) (''%'' @ toLowerCase sq @ ''%'') t - getOffset op)
          (min (getLimit lp) SEARCH_LIMIT) \<le> 100"
    by blast
  show ?thesis
    by (rule conjI [OF cap conjI [OF lim conjI [OF page' conjI [OF empty rej]]]])
qed

theorem search_limit_capped_total_on_page_witness:
  "validateSearchQuery (QString '' Naruto '') = Inr ''Naruto'' \<and> tableFitsKey exampleTable \<and>
   parseInt (toStringParam (QString ''150'')) = Some 150 \<and>
   getLimit (QString ''150'') = 150 \<and>
   min (getLimit (QString ''150'')) SEARCH_LIMIT = 100 \<and>
   answersPage (get_search lowerLikeLatin Image (Up exampleTable) (QString '' Naruto '')
                  (QString ''150'') QUndefined) 2 2 \<and>
   field ''limit'' (get_search lowerLikeLatin Image (Up exampleTable) (QString '' Naruto '')
                      (QString ''150'') QUndefined) = Some (JNum 100) \<and>
   answersEmpty (get_search lowerLikeLatin Image (Up exampleTable) (QString '' Naruto '')
                   (QString ''150'') (QString ''2'')) \<and>
   field ''total'' (get_search lowerLikeLatin Image (Up exampleTable) (QString '' Naruto '')
                      (QString ''150'') (QString ''2'')) = Some (JNum 0) \<and>
   BIGINT_MAX < getOffset (QString ''9223372036854775807'') \<and>
   status (get_search lowerLikeLatin Image (Up exampleTable) (QString '' Naruto '')
             (QString ''150'') (QString ''9223372036854775807'')) = 500 \<and>
   validateSearchQuery (QString [CHR ''a'', CHR 0x00]) = Inr [CHR ''a'', CHR 0x00] \<and>
   status (get_search lowerLikeLatin Image (Up exampleTable) (QString [CHR ''a'', CHR 0x00])
             (QString ''150'') QUndefined) = 500"
proof -
  have q: "validateSearchQuery (QString '' Naruto '') = Inr ''Naruto''" by code_simp
  have qn: "validateSearchQuery (QString [CHR ''a'', CHR 0x00]) = Inr [CHR ''a'', CHR 0x00]"
    by code_simp
  have t: "tableFitsKey exampleTable" by code_simp
  have k: "parseInt (toStringParam (QString ''150'')) = Some 150" by code_simp
  note at0 = search_limit_capped_total_on_page [OF q t, where lp = "QString ''150''" and k = 150
      and op = QUndefined and lk = lowerLikeLatin and mt = Image]
  note at2 = search_limit_capped_total_on_page [OF q t, where lp = "QString ''150''" and k = 150
      and op = "QString ''2''" and lk = lowerLikeLatin and mt = Image]
  note big = search_limit_capped_total_on_page [OF q t, where lp = "QString ''150''" and k = 150
      and op = "QString ''9223372036854775807''" and lk = lowerLikeLatin and mt = Image]
  note nul = search_limit_capped_total_on_page [OF qn t, where lp = "QString ''150''" and k = 150
      and op = QUndefined and lk = lowerLikeLatin and mt = Image]
  have n: "countSearch lowerLikeLatin (typeName Image) (''%'' @ toLowerCase ''Naruto'' @ ''%'') exampleTable = 2"
    by code_simp
  have o0: "getOffset QUndefined = 0" by code_simp
  have o2: "getOffset (QString ''2'') = 2" by code_simp
  have ob: "BIGINT_MAX < getOffset (QString ''9223372036854775807'')" by code_simp
  have bm: "BIGINT_MAX = 9223372036854775807" by (simp add: BIGINT_MAX_def)
  have nonul: "CHR 0x00 \<notin> set ''Naruto''" by simp
  from at0 k have l: "getLimit (QString ''150'') = 150"
    and m: "min (getLimit (QString ''150'')) SEARCH_LIMIT = 100"
    by (simp_all add: SEARCH_LIMIT_def)
  have p1: "answersPage (get_search lowerLikeLatin Image (Up exampleTable) (QString '' Naruto '')
                  (QString ''150'') QUndefined) 2 2"
    using at0 nonul unfolding n o0 m by simp
  have p2: "field ''limit'' (get_search lowerLikeLatin Image (Up exampleTable) (QString '' Naruto '')
                      (QString ''150'') QUndefined) = Some (JNum 100)"
    using at0 nonul unfolding n o0 m by simp
  have p3: "answersEmpty (get_search lowerLikeLatin Image (Up exampleTable) (QString '' Naruto '')
                   (QString ''150'') (QString ''2''))"
    using at2 nonul unfolding n o2 bm by simp
  have p4: "field ''total'' (get_search lowerLikeLatin Image (Up exampleTable) (QString '' Naruto '')
                      (QString ''150'') (QString ''2'')) = Some (JNum 0)"
    using at2 nonul unfolding n o2 bm by simp
  have p5: "status (get_search lowerLikeLatin Image (Up exampleTable) (QString '' Naruto '')
             (QString ''150'') (QString ''9223372036854775807'')) = 500"
    using big ob by blast
  have p6: "status (get_search lowerLikeLatin Image (Up exampleTable) (QString [CHR ''a'', CHR 0x00])
             (QString ''150'') QUndefined) = 500"
    using nul by simp
  from q t k l m p1 p2 p3 p4 ob p5 qn p6 show ?thesis by blast
qed

section \<open>Lookup by id\<close>

lemma parseIntNumber_None: "parseIntNumber p = None \<longleftrightarrow> parseInt p = None"
  by (simp add: parseIntNumber_def)

lemma parseIntNumber_Some: "parseInt p = Some n \<Longrightarrow> parseIntNumber p = Some (nearestDouble n)"
  by (simp add: parseIntNumber_def)

lemma nearestDouble_below_one: "nearestDouble n < 1 \<longleftrightarrow> n < 1"
  by (rule nearestDouble_less_iff) simp_all

lemma nearestDouble_id_in_range:
  assumes "1 \<le> n" and "n \<le> INT_MAX"
  shows "nearestDouble n = n"
  using assms by (intro nearestDouble_small) (simp add: INT_MAX_def)

lemma nearestDouble_id_above:
  assumes "INT_MAX < n"
  shows "INT_MAX < nearestDouble n"
proof -
  have "nearestDouble n < INT_MAX + 1 \<longleftrightarrow> n < INT_MAX + 1"
    by (rule nearestDouble_less_iff) (simp_all add: INT_MAX_def)
  with assms show ?thesis by simp
qed

lemma get_by_id_400:
  "status (fst (get_by_id mt (Up t) p)) = 400 \<longleftrightarrow>
   (case parseInt p of None \<Rightarrow> True | Some n \<Rightarrow> n < 1)"
proof (cases "parseInt p")
  case None
  then show ?thesis
    by (simp add: get_by_id_def parseIntNumber_def status_respond)
next
  case (Some n)
  show ?thesis
  proof (cases "n < 1")
    case True
    with Some show ?thesis
      by (simp add: get_by_id_def parseIntNumber_Some nearestDouble_below_one status_respond)
  next
    case False
    with Some show ?thesis
      by (simp add: get_by_id_def parseIntNumber_Some nearestDouble_below_one query_def
          selectById_def integerParam_def status_respond split: list.splits)
  qed
qed

lemma get_by_id_found:
  assumes "parseInt p = Some n" and "1 \<le> n" and "n \<le> INT_MAX"
  shows "(rowsById (typeName mt) n t = [] \<longrightarrow> status (fst (get_by_id mt (Up t) p)) = 404) \<and>
         (rowsById (typeName mt) n t \<noteq> [] \<longrightarrow>
            body (fst (get_by_id mt (Up t) p)) = JRow (hd (rowsById (typeName mt) n t)) \<and>
            servesOnly (\<lambda>m. media_id m = n \<and> visible m = Some True \<and> media_type m = typeName mt)
              (fst (get_by_id mt (Up t) p)))"
proof -
  from assms have num: "parseIntNumber p = Some n"
    by (simp add: parseIntNumber_Some nearestDouble_id_in_range)
  from assms have sel: "selectById (typeName mt) n t = Inr (rowsById (typeName mt) n t)"
    by (simp add: selectById_def integerParam_def INT_MAX_def)
  show ?thesis
  proof (cases "rowsById (typeName mt) n t")
    case Nil
    with assms num sel show ?thesis
      by (simp add: get_by_id_def query_def status_respond)
  next
    case (Cons m ms)
    then have "m \<in> set (rowsById (typeName mt) n t)" by simp
    then have "media_id m = n \<and> visible m = Some True \<and> media_type m = typeName mt"
      by (simp add: rowsById_def)
    with Cons assms num sel show ?thesis
      by (simp add: get_by_id_def query_def servesOnly_def)
  qed
qed

lemma get_by_id_out_of_range:
  assumes "parseInt p = Some n" and "INT_MAX < n"
  shows "status (fst (get_by_id mt (Up t) p)) = 500"
proof -
  from assms(1) have num: "parseIntNumber p = Some (nearestDouble n)"
    by (rule parseIntNumber_Some)
  from nearestDouble_id_above [OF assms(2)] have big: "INT_MAX < nearestDouble n" .
  then have "\<not> nearestDouble n < 1" by (simp add: INT_MAX_def)
  moreover from big have "selectById (typeName mt) (nearestDouble n) t =
      Inl ''value is out of range for type integer''"
    by (simp add: selectById_def integerParam_def)
  ultimately show ?thesis using num
    by (simp add: get_by_id_def query_def status_respond)
qed

text \<open>
  Claim C8, as stated, fails: the parameter \<open>2abc\<close> is not a positive integer, and the
  request is not rejected: it is answered 200 with the row 2.
\<close>

theorem id_with_trailing_text_accepted_counterexample:
  "\<not> isPositiveInteger ''2abc'' \<and>
   status (fst (get_by_id Image (Up exampleTable) ''2abc'')) = 200"
  by code_simp

text \<open>
  Claim C8, amended. On a database that answers, the request is rejected with 400
  exactly when \<open>parseInt\<close> reads no integer of at least 1 from the start of the parameter
  (text after the digits is ignored); a parameter that is a positive decimal integer is
  read as its value and is never rejected with 400. For an id that is read and fits the
  32 bits of the key, the response is 404 if no visible row of the type has it, and
  otherwise 200 with the first such row; for an id that is read and is above
  2147483647, the database rejects the statement and the response is 500.
\<close>

theorem id_rejected_iff_parseInt_below_one:
  "(status (fst (get_by_id mt (Up t) p)) = 400 \<longleftrightarrow>
      (case parseInt p of None \<Rightarrow> True | Some n \<Rightarrow> n < 1)) \<and>
   (isPositiveInteger p \<longrightarrow>
      parseInt p = Some (radixValue 10 p) \<and>
      status (fst (get_by_id mt (Up t) p)) \<noteq> 400) \<and>
   (parseInt p = Some n \<and> 1 \<le> n \<and> n \<le> INT_MAX \<longrightarrow>
      (rowsById (typeName mt) n t = [] \<longrightarrow> status (fst (get_by_id mt (Up t) p)) = 404) \<and>
      (rowsById (typeName mt) n t \<noteq> [] \<longrightarrow>
         body (fst (get_by_id mt (Up t) p)) = JRow (hd (rowsById (typeName mt) n t)) \<and>
         servesOnly (\<lambda>m. media_id m = n \<and> visible m = Some True \<and> media_type m = typeName mt)
           (fst (get_by_id mt (Up t) p)))) \<and>
   (parseInt p = Some n \<and> INT_MAX < n \<longrightarrow> status (fst (get_by_id mt (Up t) p)) = 500)"
proof (intro conjI)
  show "status (fst (get_by_id mt (Up t) p)) = 400 \<longleftrightarrow>
      (case parseInt p of None \<Rightarrow> True | Some n \<Rightarrow> n < 1)"
    by (rule get_by_id_400)
  show "isPositiveInteger p \<longrightarrow>
      parseInt p = Some (radixValue 10 p) \<and>
      status (fst (get_by_id mt (Up t) p)) \<noteq> 400"
  proof
    assume pos: "isPositiveInteger p"
    then have v: "parseInt p = Some (radixValue 10 p)"
      by (simp add: isPositiveInteger_def parseInt_decimal)
    moreover from pos have "\<not> radixValue 10 p < 1"
      by (simp add: isPositiveInteger_def)
    ultimately show "parseInt p = Some (radixValue 10 p) \<and>
      status (fst (get_by_id mt (Up t) p)) \<noteq> 400"
      by (simp add: get_by_id_400)
  qed
  show "parseInt p = Some n \<and> 1 \<le> n \<and> n \<le> INT_MAX \<longrightarrow>
      (rowsById (typeName mt) n t = [] \<longrightarrow> status (fst (get_by_id mt (Up t) p)) = 404) \<and>
      (rowsById (typeName mt) n t \<noteq> [] \<longrightarrow>
         body (fst (get_by_id mt (Up t) p)) = JRow (hd (rowsById (typeName mt) n t)) \<and>
         servesOnly (\<lambda>m. media_id m = n \<and> visible m = Some True \<and> media_type m = typeName mt)
           (fst (get_by_id mt (Up t) p)))"
    using get_by_id_found [of p n mt t] by blast
  show "parseInt p = Some n \<and> INT_MAX < n \<longrightarrow> status (fst (get_by_id mt (Up t) p)) = 500"
    using get_by_id_out_of_range [of p n mt t] by blast
qed

theorem id_rejected_iff_parseInt_below_one_witness:
  "isPositiveInteger ''4'' \<and> parseInt ''4'' = Some 4 \<and>
   status (fst (get_by_id Gif (Up exampleTable) ''4'')) \<noteq> 400 \<and>
   rowsById (typeName Gif) 4 exampleTable \<noteq> [] \<and>
   servesOnly (\<lambda>m. media_id m = 4 \<and> visible m = Some True \<and> media_type m = typeName Gif)
     (fst (get_by_id Gif (Up exampleTable) ''4'')) \<and>
   rowsById (typeName Image) 4 exampleTable = [] \<and>
   status (fst (get_by_id Image (Up exampleTable) ''4'')) = 404 \<and>
   parseInt ''-3'' = Some (- 3) \<and>
   status (fst (get_by_id Image (Up exampleTable) ''-3'')) = 400 \<and>
   parseInt ''2147483648'' = Some 2147483648 \<and>
   status (fst (get_by_id Image (Up exampleTable) ''2147483648'')) = 500 \<and>
   parseInt ''99999999999999999999'' = Some 99999999999999999999 \<and>
   status (fst (get_by_id Image (Up exampleTable) ''99999999999999999999'')) = 500"
proof -
  have pos: "isPositiveInteger ''4''" by code_simp
  have v: "radixValue 10 ''4'' = 4" by code_simp
  have some: "rowsById (typeName Gif) 4 exampleTable \<noteq> []" by code_simp
  have none: "rowsById (typeName Image) 4 exampleTable = []" by code_simp
  have neg: "parseInt ''-3'' = Some (- 3)" by code_simp
  have over: "parseInt ''2147483648'' = Some 2147483648" by code_simp
  have far: "parseInt ''99999999999999999999'' = Some 99999999999999999999" by code_simp
  have im: "INT_MAX = 2147483647" by (simp add: INT_MAX_def)
  note gif = id_rejected_iff_parseInt_below_one [where p = "''4''" and mt = Gif
      and t = exampleTable and n = 4]
  note img = id_rejected_iff_parseInt_below_one [where p = "''4''" and mt = Image
      and t = exampleTable and n = 4]
  note bad = id_rejected_iff_parseInt_below_one [where p = "''-3''" and mt = Image
      and t = exampleTable and n = 4]
  note big = id_rejected_iff_parseInt_below_one [where p = "''2147483648''" and mt = Image
      and t = exampleTable and n = 2147483648]
  note huge = id_rejected_iff_parseInt_below_one [where p = "''99999999999999999999''"
      and mt = Image and t = exampleTable and n = 99999999999999999999]
  from gif pos v have p4: "parseInt ''4'' = Some 4"
    and ok: "status (fst (get_by_id Gif (Up exampleTable) ''4'')) \<noteq> 400"
    by simp_all
  from gif p4 some
  have row: "servesOnly (\<lambda>m. media_id m = 4 \<and> visible m = Some True \<and> media_type m = typeName Gif)
     (fst (get_by_id Gif (Up exampleTable) ''4''))"
    unfolding im by simp
  from img p4 none have nf: "status (fst (get_by_id Image (Up exampleTable) ''4'')) = 404"
    unfolding im by simp
  from bad neg have rej: "status (fst (get_by_id Image (Up exampleTable) ''-3'')) = 400"
    by simp
  from big over have r1: "status (fst (get_by_id Image (Up exampleTable) ''2147483648'')) = 500"
    unfolding im by simp
  from huge far
  have r2: "status (fst (get_by_id Image (Up exampleTable) ''99999999999999999999'')) = 500"
    unfolding im by simp
  from pos p4 ok some row none nf neg rej over r1 far r2 show ?thesis by blast
qed

section \<open>Random endpoints\<close>

lemma randomOne_member: "randomOne rnd xs = r # rest \<Longrightarrow> r \<in> set xs"
  by (auto simp: randomOne_def split: if_splits)

lemma randomOne_nonempty: "xs \<noteq> [] \<Longrightarrow> randomOne rnd xs \<noteq> []"
  by (simp add: randomOne_def)

lemma servesOnly_respond: "st \<noteq> 200 \<Longrightarrow> servesOnly P (respond st fs)"
  by (simp add: servesOnly_def respond_def)

lemma servesOnly_categoryCatch: "servesOnly P (categoryCatch msg)"
  by (simp add: categoryCatch_def servesOnly_respond)

lemma get_random_serves: "servesOnly (\<lambda>m. visible m = Some True) (get_random db rnd)"
proof (cases db)
  case (Down msg)
  then show ?thesis by (simp add: get_random_def query_def servesOnly_respond)
next
  case (Up t)
  show ?thesis
  proof (cases "randomOne rnd (filter (\<lambda>r. visible r = Some True) (rows t))")
    case Nil
    with Up show ?thesis by (simp add: get_random_def query_def servesOnly_respond)
  next
    case (Cons r rest)
    from randomOne_member [OF Cons] have "visible r = Some True" by simp
    with Up Cons show ?thesis by (simp add: get_random_def query_def servesOnly_def)
  qed
qed

lemma get_random_typed_serves:
  "servesOnly (\<lambda>m. visible m = Some True \<and> media_type m = typeName mt) (get_random_typed mt db rnd)"
proof (cases db)
  case (Down msg)
  then show ?thesis by (simp add: get_random_typed_def query_def servesOnly_respond)
next
  case (Up t)
  show ?thesis
  proof (cases "randomOne rnd (filter (isVisibleOfType (typeName mt)) (rows t))")
    case Nil
    with Up show ?thesis by (simp add: get_random_typed_def query_def servesOnly_respond)
  next
    case (Cons r rest)
    from randomOne_member [OF Cons] have "visible r = Some True \<and> media_type r = typeName mt"
      by (simp add: isVisibleOfType_def)
    with Up Cons show ?thesis by (simp add: get_random_typed_def query_def servesOnly_def)
  qed
qed

lemma get_random_category_serves:
  "servesOnly (\<lambda>m. visible m = Some True \<and> media_type m = typeName mt)
     (get_random_category mt db cp rnd)"
proof (cases "validateCategory cp")
  case (Inl msg)
  then show ?thesis by (simp add: get_random_category_def servesOnly_categoryCatch)
next
  case (Inr cat)
  from validated_no_nul [OF Inr]
  have tp: "\<And>rest :: string + media list. textParam cat rest = rest"
    by (simp add: textParam_def)
  show ?thesis
  proof (cases db)
    case (Down msg)
    with Inr show ?thesis
      by (simp add: get_random_category_def query_def servesOnly_categoryCatch)
  next
    case (Up t)
    show ?thesis
    proof (cases "randomOne rnd
        (filter (\<lambda>r. category r = cat \<and> isVisibleOfType (typeName mt) r) (rows t))")
      case Nil
      with Up Inr show ?thesis
        by (simp add: get_random_category_def query_def tp servesOnly_respond)
    next
      case (Cons r rest)
      from randomOne_member [OF Cons] have "visible r = Some True \<and> media_type r = typeName mt"
        by (simp add: isVisibleOfType_def)
      with Up Inr Cons show ?thesis
        by (simp add: get_random_category_def query_def tp servesOnly_def)
    qed
  qed
qed

lemma get_random_typed_200:
  assumes "filter (isVisibleOfType (typeName mt)) (rows t) \<noteq> []"
  shows "status (get_random_typed mt (Up t) rnd) = 200"
  using randomOne_nonempty [OF assms, of rnd]
  by (simp add: get_random_typed_def query_def split: list.splits)

lemma get_random_200:
  assumes "filter (\<lambda>r. visible r = Some True) (rows t) \<noteq> []"
  shows "status (get_random (Up t) rnd) = 200"
  using randomOne_nonempty [OF assms, of rnd]
  by (simp add: get_random_def query_def split: list.splits)

text \<open>
  Claim C9. Whatever the database holds and whatever row the database picks, a random
  endpoint answers 200 only with a row whose \<open>visible\<close> is true, and a typed random
  endpoint, global or scoped to a category, only with a row of the requested type as
  well; and when the table has a row that qualifies, the global endpoints do answer 200.
\<close>

theorem random_serves_visible_of_type:
  "servesOnly (\<lambda>m. visible m = Some True) (get_random db rnd) \<and>
   servesOnly (\<lambda>m. visible m = Some True \<and> media_type m = typeName mt)
     (get_random_typed mt db rnd) \<and>
   servesOnly (\<lambda>m. visible m = Some True \<and> media_type m = typeName mt)
     (get_random_category mt db cp rnd) \<and>
   (filter (\<lambda>r. visible r = Some True) (rows t) \<noteq> [] \<longrightarrow>
      status (get_random (Up t) rnd) = 200) \<and>
   (filter (isVisibleOfType (typeName mt)) (rows t) \<noteq> [] \<longrightarrow>
      status (get_random_typed mt (Up t) rnd) = 200)"
  using get_random_serves [of db rnd] get_random_typed_serves [of mt db rnd]
    get_random_category_serves [of mt db cp rnd] get_random_200 [of t rnd]
    get_random_typed_200 [of mt t rnd]
  by blast

theorem random_serves_visible_of_type_witness:
  "filter (\<lambda>r. visible r = Some True) (rows exampleTable) \<noteq> [] \<and>
   filter (isVisibleOfType (typeName Gif)) (rows exampleTable) \<noteq> [] \<and>
   status (get_random (Up exampleTable) 4) = 200 \<and>
   status (get_random_typed Gif (Up exampleTable) 4) = 200 \<and>
   servesOnly (\<lambda>m. visible m = Some True \<and> media_type m = typeName Gif)
     (get_random_typed Gif (Up exampleTable) 4) \<and>
   body (get_random_typed Gif (Up exampleTable) 4) = JRow (mediaRow 4 ''Naruto spin'' ''naruto'' ''gif'' True 2)"
proof -
  have a: "filter (\<lambda>r. visible r = Some True) (rows exampleTable) \<noteq> []" by code_simp
  have b: "filter (isVisibleOfType (typeName Gif)) (rows exampleTable) \<noteq> []" by code_simp
  have c: "body (get_random_typed Gif (Up exampleTable) 4) =
           JRow (mediaRow 4 ''Naruto spin'' ''naruto'' ''gif'' True 2)" by code_simp
  note w = random_serves_visible_of_type [where db = "Up exampleTable" and rnd = 4
      and mt = Gif and t = exampleTable and cp = "''Naruto''"]
  from w a b c show ?thesis by blast
qed

section \<open>The token check of the administrative routes\<close>

text \<open>
  Claim C6. The middleware answers 401 when the \<open>Authorization\<close> header is missing or
  does not start with \<open>Bearer \<close>; 401 when the check of the token throws, as it does for a
  bad signature and for an expired token; 403 when the decoded claims have no truthy
  \<open>is_admin\<close>; and otherwise it stores the decoded claims in the request and calls the
  handler.
\<close>

theorem authenticateAdmin_401_403_or_next:
  "(authorization req = None \<longrightarrow> rejectedWith 401 (authenticateAdmin verify req)) \<and>
   (authorization req = Some h \<and> \<not> startsWith h ''Bearer '' \<longrightarrow>
      rejectedWith 401 (authenticateAdmin verify req)) \<and>
   (authorization req = Some h \<and> startsWith h ''Bearer '' \<and> verify (drop 7 h) = Threw name \<longrightarrow>
      rejectedWith 401 (authenticateAdmin verify req)) \<and>
   (authorization req = Some h \<and> startsWith h ''Bearer '' \<and> verify (drop 7 h) = Decoded decoded \<and>
      \<not> truthy (claim decoded ''is_admin'') \<longrightarrow>
      rejectedWith 403 (authenticateAdmin verify req)) \<and>
   (authorization req = Some h \<and> startsWith h ''Bearer '' \<and> verify (drop 7 h) = Decoded decoded \<and>
      truthy (claim decoded ''is_admin'') \<longrightarrow>
      authenticateAdmin verify req = Next (req\<lparr>admin := Some decoded\<rparr>))"
proof (intro conjI impI)
  assume "authorization req = None"
  then show "rejectedWith 401 (authenticateAdmin verify req)"
    by (simp add: authenticateAdmin_def rejectedWith_def status_respond)
next
  assume "authorization req = Some h \<and> \<not> startsWith h ''Bearer ''"
  then show "rejectedWith 401 (authenticateAdmin verify req)"
    by (simp add: authenticateAdmin_def rejectedWith_def status_respond)
next
  assume a: "authorization req = Some h \<and> startsWith h ''Bearer '' \<and> verify (drop 7 h) = Threw name"
  then have "h \<noteq> []" by (auto simp: startsWith_def)
  with a show "rejectedWith 401 (authenticateAdmin verify req)"
    by (simp add: authenticateAdmin_def rejectedWith_def status_respond Let_def)
next
  assume a: "authorization req = Some h \<and> startsWith h ''Bearer '' \<and>
    verify (drop 7 h) = Decoded decoded \<and> \<not> truthy (claim decoded ''is_admin'')"
  then have "h \<noteq> []" by (auto simp: startsWith_def)
  with a show "rejectedWith 403 (authenticateAdmin verify req)"
    by (simp add: authenticateAdmin_def rejectedWith_def status_respond Let_def)
next
  assume a: "authorization req = Some h \<and> startsWith h ''Bearer '' \<and>
    verify (drop 7 h) = Decoded decoded \<and> truthy (claim decoded ''is_admin'')"
  then have "h \<noteq> []" by (auto simp: startsWith_def)
  with a show "authenticateAdmin verify req = Next (req\<lparr>admin := Some decoded\<rparr>)"
    by (simp add: authenticateAdmin_def Let_def)
qed

theorem authenticateAdmin_401_403_or_next_witness:
  "rejectedWith 401 (authenticateAdmin exampleVerify \<lparr>authorization = None, admin = None\<rparr>) \<and>
   \<not> startsWith ''Basic abc'' ''Bearer '' \<and>
   rejectedWith 401 (authenticateAdmin exampleVerify \<lparr>authorization = Some ''Basic abc'', admin = None\<rparr>) \<and>
   startsWith ''Bearer old-token'' ''Bearer '' \<and>
   exampleVerify (drop 7 ''Bearer old-token'') = Threw ''TokenExpiredError'' \<and>
   rejectedWith 401 (authenticateAdmin exampleVerify \<lparr>authorization = Some ''Bearer old-token'', admin = None\<rparr>) \<and>
   \<not> truthy (claim [(''sub'', JsString ''guest''), (''exp'', JsNumber 2000)] ''is_admin'') \<and>
   rejectedWith 403 (authenticateAdmin exampleVerify \<lparr>authorization = Some ''Bearer user-token'', admin = None\<rparr>) \<and>
   authenticateAdmin exampleVerify \<lparr>authorization = Some ''Bearer admin-token'', admin = None\<rparr> =
     Next \<lparr>authorization = Some ''Bearer admin-token'',
           admin = Some [(''sub'', JsString ''admin''), (''is_admin'', JsBool True), (''exp'', JsNumber 2000)]\<rparr>"
proof -
  note none = authenticateAdmin_401_403_or_next
    [where req = "\<lparr>authorization = None, admin = None\<rparr>" and verify = exampleVerify]
  have basic: "\<not> startsWith ''Basic abc'' ''Bearer ''" by code_simp
  note nobearer = authenticateAdmin_401_403_or_next
    [where req = "\<lparr>authorization = Some ''Basic abc'', admin = None\<rparr>" and verify = exampleVerify
       and h = "''Basic abc''"]
  have b1: "startsWith ''Bearer old-token'' ''Bearer ''" by code_simp
  have v1: "exampleVerify (drop 7 ''Bearer old-token'') = Threw ''TokenExpiredError''" by code_simp
  note expired = authenticateAdmin_401_403_or_next
    [where req = "\<lparr>authorization = Some ''Bearer old-token'', admin = None\<rparr>"
       and verify = exampleVerify and h = "''Bearer old-token''" and name = "''TokenExpiredError''"]
  have b2: "startsWith ''Bearer user-token'' ''Bearer ''" by code_simp
  have v2: "exampleVerify (drop 7 ''Bearer user-token'') =
            Decoded [(''sub'', JsString ''guest''), (''exp'', JsNumber 2000)]" by code_simp
  have t2: "\<not> truthy (claim [(''sub'', JsString ''guest''), (''exp'', JsNumber 2000)] ''is_admin'')"
    by code_simp
  note user = authenticateAdmin_401_403_or_next
    [where req = "\<lparr>authorization = Some ''Bearer user-token'', admin = None\<rparr>"
       and verify = exampleVerify and h = "''Bearer user-token''"
       and decoded = "[(''sub'', JsString ''guest''), (''exp'', JsNumber 2000)]"]
  have b3: "startsWith ''Bearer admin-token'' ''Bearer ''" by code_simp
  have v3: "exampleVerify (drop 7 ''Bearer admin-token'') =
            Decoded [(''sub'', JsString ''admin''), (''is_admin'', JsBool True), (''exp'', JsNumber 2000)]"
    by code_simp
  have t3: "truthy (claim [(''sub'', JsString ''admin''), (''is_admin'', JsBool True),
                           (''exp'', JsNumber 2000)] ''is_admin'')"
    by code_simp
  note adm = authenticateAdmin_401_403_or_next
    [where req = "\<lparr>authorization = Some ''Bearer admin-token'', admin = None\<rparr>"
       and verify = exampleVerify and h = "''Bearer admin-token''"
       and decoded = "[(''sub'', JsString ''admin''), (''is_admin'', JsBool True), (''exp'', JsNumber 2000)]"]
  have r1: "rejectedWith 401 (authenticateAdmin exampleVerify \<lparr>authorization = None, admin = None\<rparr>)"
    using none by simp
  have r2: "rejectedWith 401 (authenticateAdmin exampleVerify \<lparr>authorization = Some ''Basic abc'', admin = None\<rparr>)"
    using nobearer basic by simp
  have r3: "rejectedWith 401 (authenticateAdmin exampleVerify \<lparr>authorization = Some ''Bearer old-token'', admin = None\<rparr>)"
    using expired b1 v1 by simp
  have r4: "rejectedWith 403 (authenticateAdmin exampleVerify \<lparr>authorization = Some ''Bearer user-token'', admin = None\<rparr>)"
    using user b2 v2 t2 by simp
  have r5: "authenticateAdmin exampleVerify \<lparr>authorization = Some ''Bearer admin-token'', admin = None\<rparr> =
     Next \<lparr>authorization = Some ''Bearer admin-token'',
           admin = Some [(''sub'', JsString ''admin''), (''is_admin'', JsBool True), (''exp'', JsNumber 2000)]\<rparr>"
    using adm b3 v3 t3 by simp
  from r1 basic r2 b1 v1 r3 t2 r4 r5 show ?thesis by blast
qed

section \<open>Bulk upload: replication of a single title or category\<close>

text \<open>
  Claim C3. With one title for \<open>n > 1\<close> files, the titles become \<open>n\<close> texts, the one at
  position \<open>i\<close> (from 0) being the title, a space and the decimal numeral of \<open>i + 1\<close>; with
  one category for \<open>n > 1\<close> files, the categories become that category \<open>n\<close> times.
\<close>

theorem single_title_indexed_single_category_repeated:
  "(length titles = 1 \<and> 1 < length files \<longrightarrow>
      length (replicateTitles files titles) = length files \<and>
      (\<forall>i < length files.
         replicateTitles files titles ! i = hd titles @ '' '' @ showNat (i + 1) \<and>
         parseInt (showNat (i + 1)) = Some (int i + 1))) \<and>
   (length categories = 1 \<and> 1 < length files \<longrightarrow>
      replicateCategories files categories = replicate (length files) (hd categories))"
  by (simp add: replicateTitles_def replicateCategories_def Let_def parseInt_showNat)

theorem single_title_indexed_single_category_repeated_witness:
  "length [''Pic''] = 1 \<and> length [''naruto''] = 1 \<and> 1 < length threeFiles \<and>
   length (replicateTitles threeFiles [''Pic'']) = length threeFiles \<and>
   replicateTitles threeFiles [''Pic''] ! 2 = hd [''Pic''] @ '' '' @ showNat (2 + 1) \<and>
   replicateTitles threeFiles [''Pic''] = [''Pic 1'', ''Pic 2'', ''Pic 3''] \<and>
   replicateCategories threeFiles [''naruto''] = replicate (length threeFiles) (hd [''naruto'']) \<and>
   replicateCategories threeFiles [''naruto''] = [''naruto'', ''naruto'', ''naruto'']"
proof -
  have n: "1 < length threeFiles" and i: "2 < length threeFiles" by code_simp+
  note w = single_title_indexed_single_category_repeated
    [where titles = "[''Pic'']" and files = threeFiles and categories = "[''naruto'']"]
  from w n have len: "length (replicateTitles threeFiles [''Pic'']) = length threeFiles"
    and each: "\<forall>i < length threeFiles.
         replicateTitles threeFiles [''Pic''] ! i = hd [''Pic''] @ '' '' @ showNat (i + 1) \<and>
         parseInt (showNat (i + 1)) = Some (int i + 1)"
    and cats: "replicateCategories threeFiles [''naruto''] = replicate (length threeFiles) (hd [''naruto''])"
    by simp_all
  from each i
  have third: "replicateTitles threeFiles [''Pic''] ! 2 = hd [''Pic''] @ '' '' @ showNat (2 + 1)"
    by blast
  have t: "replicateTitles threeFiles [''Pic''] = [''Pic 1'', ''Pic 2'', ''Pic 3'']" by code_simp
  have c: "replicateCategories threeFiles [''naruto''] = [''naruto'', ''naruto'', ''naruto'']"
    by code_simp
  from n len third t cats c show ?thesis by simp
qed

section \<open>Bulk upload: every file is accounted for\<close>

lemma uploadOne_Inr:
  assumes "uploadOne cdn files titles categories mediaType idx db = Inr (item, db')"
  shows "filename item = originalname (files ! idx)" and "freshItem item"
    and "\<exists>r. rowsOf db' = rowsOf db @ [r] \<and> freshRow r"
  using assms
  by (auto simp: uploadOne_def insertMedia_def Let_def freshItem_def freshRow_def rowsOf_def
      split: if_splits sum.splits cdnOutcome.splits option.splits database.splits prod.splits)

lemma accountsFor_success:
  assumes "accountsFor files idx up errs" and "filename item = originalname (files ! idx)"
  shows "accountsFor files (Suc idx) (up @ [item]) errs"
proof -
  from assms(1) have below: "\<forall>e \<in> set errs. err_index e < idx"
    by (simp add: accountsFor_def list_all_iff)
  then have "idx \<notin> set (map err_index errs)" by auto
  with assms show ?thesis
    by (auto simp: accountsFor_def list_all_iff)
qed

lemma accountsFor_failure:
  assumes "accountsFor files idx up errs"
  shows "accountsFor files (Suc idx) up
           (errs @ [\<lparr>err_filename = originalname (files ! idx), err_index = idx, err_error = msg\<rparr>])"
proof -
  from assms have below: "\<forall>e \<in> set errs. err_index e < idx"
    by (simp add: accountsFor_def list_all_iff)
  have "filter (\<lambda>i. i \<noteq> idx \<and> i \<notin> err_index ` set errs) [0 ..< idx] =
        filter (\<lambda>i. i \<notin> err_index ` set errs) [0 ..< idx]"
    by (rule filter_cong) auto
  with assms below show ?thesis
    by (auto simp: accountsFor_def list_all_iff sorted_wrt_append)
qed

lemma uploadStep_accounts:
  assumes "accountsFor files idx (uploadedMedia b) (errors b)"
    and "successCount b = length (uploadedMedia b)" and "failedCount b = length (errors b)"
    and "length (uploadedMedia b) + length (errors b) = idx"
  shows "accountsFor files (Suc idx)
           (uploadedMedia (uploadStep cdn files titles categories mediaType idx b))
           (errors (uploadStep cdn files titles categories mediaType idx b)) \<and>
         successCount (uploadStep cdn files titles categories mediaType idx b) =
           length (uploadedMedia (uploadStep cdn files titles categories mediaType idx b)) \<and>
         failedCount (uploadStep cdn files titles categories mediaType idx b) =
           length (errors (uploadStep cdn files titles categories mediaType idx b)) \<and>
         length (uploadedMedia (uploadStep cdn files titles categories mediaType idx b)) +
           length (errors (uploadStep cdn files titles categories mediaType idx b)) = Suc idx"
proof (cases "uploadOne cdn files titles categories mediaType idx (db_after b)")
  case (Inl msg)
  with assms accountsFor_failure [OF assms(1), of msg] show ?thesis
    by (simp add: uploadStep_def)
next
  case (Inr res)
  obtain item db' where res: "res = (item, db')" by (cases res)
  from Inr res have "filename item = originalname (files ! idx)"
    by (simp add: uploadOne_Inr(1))
  from accountsFor_success [OF assms(1) this] Inr res assms show ?thesis
    by (simp add: uploadStep_def)
qed

lemma uploadLoop_accounts:
  assumes "idx \<le> length files"
    and "accountsFor files idx (uploadedMedia b) (errors b)"
    and "successCount b = length (uploadedMedia b)" and "failedCount b = length (errors b)"
    and "length (uploadedMedia b) + length (errors b) = idx"
  shows "accountsFor files (length files)
           (uploadedMedia (uploadLoop cdn files titles categories mediaType idx b))
           (errors (uploadLoop cdn files titles categories mediaType idx b)) \<and>
         successCount (uploadLoop cdn files titles categories mediaType idx b) =
           length (uploadedMedia (uploadLoop cdn files titles categories mediaType idx b)) \<and>
         failedCount (uploadLoop cdn files titles categories mediaType idx b) =
           length (errors (uploadLoop cdn files titles categories mediaType idx b)) \<and>
         length (uploadedMedia (uploadLoop cdn files titles categories mediaType idx b)) +
           length (errors (uploadLoop cdn files titles categories mediaType idx b)) = length files"
  using assms
proof (induction cdn files titles categories mediaType idx b rule: uploadLoop.induct)
  case (1 cdn files titles categories mediaType idx b)
  show ?case
  proof (cases "idx < length files")
    case True
    then have go: "uploadLoop cdn files titles categories mediaType idx b =
        uploadLoop cdn files titles categories mediaType (idx + 1)
          (uploadStep cdn files titles categories mediaType idx b)"
      by (simp add: uploadLoop.simps [of cdn files titles categories mediaType idx b])
    note step = uploadStep_accounts [OF "1.prems"(2-5), of cdn titles categories mediaType]
    have "idx + 1 \<le> length files" using True by simp
    with "1.IH" [OF True] step show ?thesis
      unfolding go by simp
  next
    case False
    then have stop: "uploadLoop cdn files titles categories mediaType idx b = b"
      by (simp add: uploadLoop.simps [of cdn files titles categories mediaType idx b])
    from False "1.prems" have "idx = length files" by simp
    with "1.prems" show ?thesis
      unfolding stop by simp
  qed
qed

lemma uploadedOf_Cons:
  "uploadedOf ((idx, Inl msg) # outcomes) = uploadedOf outcomes"
  "uploadedOf ((idx, Inr item) # outcomes) = item # uploadedOf outcomes"
  by (simp_all add: uploadedOf_def)

lemma errorsOf_Cons:
  "errorsOf files ((idx, Inl msg) # outcomes) =
     \<lparr>err_filename = originalname (files ! idx), err_index = idx, err_error = msg\<rparr> #
     errorsOf files outcomes"
  "errorsOf files ((idx, Inr item) # outcomes) = errorsOf files outcomes"
  by (simp_all add: errorsOf_def)

lemma uploadLoop_outcomes:
  "uploadedMedia (uploadLoop cdn files titles categories mediaType idx b) =
     uploadedMedia b @
     uploadedOf (fileOutcomes cdn files titles categories mediaType [idx ..< length files] (db_after b)) \<and>
   errors (uploadLoop cdn files titles categories mediaType idx b) =
     errors b @
     errorsOf files (fileOutcomes cdn files titles categories mediaType [idx ..< length files] (db_after b))"
proof (induction cdn files titles categories mediaType idx b rule: uploadLoop.induct)
  case (1 cdn files titles categories mediaType idx b)
  show ?case
  proof (cases "idx < length files")
    case True
    then have go: "uploadLoop cdn files titles categories mediaType idx b =
        uploadLoop cdn files titles categories mediaType (idx + 1)
          (uploadStep cdn files titles categories mediaType idx b)"
      by (simp add: uploadLoop.simps [of cdn files titles categories mediaType idx b])
    from True have range: "[idx ..< length files] = idx # [idx + 1 ..< length files]"
      by (simp add: upt_conv_Cons)
    note ih = "1.IH" [OF True]
    show ?thesis
    proof (cases "uploadOne cdn files titles categories mediaType idx (db_after b)")
      case (Inl msg)
      then have step: "uploadStep cdn files titles categories mediaType idx b =
          b\<lparr>failedCount := failedCount b + 1,
            errors := errors b @
              [\<lparr>err_filename = originalname (files ! idx), err_index = idx, err_error = msg\<rparr>]\<rparr>"
        by (simp add: uploadStep_def)
      from Inl have outs: "fileOutcomes cdn files titles categories mediaType
            (idx # [idx + 1 ..< length files]) (db_after b) =
          (idx, Inl msg) #
          fileOutcomes cdn files titles categories mediaType [idx + 1 ..< length files] (db_after b)"
        by simp
      from ih show ?thesis
        unfolding go range outs step by (simp add: uploadedOf_Cons errorsOf_Cons)
    next
      case (Inr res)
      obtain item db' where res: "res = (item, db')" by (cases res)
      with Inr have step: "uploadStep cdn files titles categories mediaType idx b =
          b\<lparr>uploadedMedia := uploadedMedia b @ [item],
            successCount := successCount b + 1,
            db_after := db'\<rparr>"
        by (simp add: uploadStep_def)
      from Inr res have outs: "fileOutcomes cdn files titles categories mediaType
            (idx # [idx + 1 ..< length files]) (db_after b) =
          (idx, Inr item) #
          fileOutcomes cdn files titles categories mediaType [idx + 1 ..< length files] db'"
        by simp
      from ih show ?thesis
        unfolding go range outs step by (simp add: uploadedOf_Cons errorsOf_Cons)
    qed
  next
    case False
    then have stop: "uploadLoop cdn files titles categories mediaType idx b = b"
      by (simp add: uploadLoop.simps [of cdn files titles categories mediaType idx b])
    from False show ?thesis
      unfolding stop by (simp add: uploadedOf_def errorsOf_def)
  qed
qed

lemma accountsFor_start: "accountsFor files 0 [] []"
  by (simp add: accountsFor_def)

lemma bulk_upload_validated:
  assumes "cloud_name = Some cn" and "cn \<noteq> []" and "files \<noteq> []"
    and "length (replicateTitles files (normalizeArrayField parseArray titlesField)) = length files"
    and "length (replicateCategories files (normalizeArrayField parseArray categoriesField)) = length files"
    and "media_type_field = Some m" and "m = ''image'' \<or> m = ''gif''"
  shows "bulk_upload parseArray cloud_name cdn db files titlesField categoriesField media_type_field =
    (let b = uploadLoop cdn files
               (replicateTitles files (normalizeArrayField parseArray titlesField))
               (replicateCategories files (normalizeArrayField parseArray categoriesField)) m 0
               \<lparr>uploadedMedia = [], errors = [], successCount = 0, failedCount = 0, db_after = db\<rparr>
     in (respond 200
           [(''success'', JNum (int (successCount b))),
            (''failed'', JNum (int (failedCount b))),
            (''uploaded_media'', JUploaded (uploadedMedia b)),
            (''errors'', JErrors (errors b))],
         db_after b))"
  using assms by (auto simp: bulk_upload_def Let_def)

text \<open>
  Claim C4. For a batch that passes the checks before the loop (the CDN is configured,
  there is a file, the titles and the categories are as many as the files, the type is
  \<open>image\<close> or \<open>gif\<close>), whatever the CDN and the database do with each file: the response
  is 200; its \<open>success\<close> and \<open>failed\<close> are the lengths of \<open>uploaded_media\<close> and \<open>errors\<close>
  and add up to the number of files; every file is in exactly one of the two lists, an
  error carrying the name of the file, its batch index and a message; and the two lists
  are those of handling every file in turn, each one on the database its predecessors
  left: the items of the files whose upload succeeds, and for each file whose upload
  fails the message of that failure. So no failure of one file keeps a later file from
  being handled.
\<close>

theorem bulk_upload_partial_success_200:
  assumes "cloud_name = Some cn" and "cn \<noteq> []" and "files \<noteq> []"
    and "length (replicateTitles files (normalizeArrayField parseArray titlesField)) = length files"
    and "length (replicateCategories files (normalizeArrayField parseArray categoriesField)) = length files"
    and "media_type_field = Some m" and "m = ''image'' \<or> m = ''gif''"
  shows "\<exists>up errs.
     status (fst (bulk_upload parseArray cloud_name cdn db files titlesField categoriesField
                    media_type_field)) = 200 \<and>
     field ''uploaded_media'' (fst (bulk_upload parseArray cloud_name cdn db files titlesField
                    categoriesField media_type_field)) = Some (JUploaded up) \<and>
     field ''errors'' (fst (bulk_upload parseArray cloud_name cdn db files titlesField
                    categoriesField media_type_field)) = Some (JErrors errs) \<and>
     field ''success'' (fst (bulk_upload parseArray cloud_name cdn db files titlesField
                    categoriesField media_type_field)) = Some (JNum (int (length up))) \<and>
     field ''failed'' (fst (bulk_upload parseArray cloud_name cdn db files titlesField
                    categoriesField media_type_field)) = Some (JNum (int (length errs))) \<and>
     length up + length errs = length files \<and>
     accountsFor files (length files) up errs \<and>
     up = uploadedOf (fileOutcomes cdn files
            (replicateTitles files (normalizeArrayField parseArray titlesField))
            (replicateCategories files (normalizeArrayField parseArray categoriesField)) m
            [0 ..< length files] db) \<and>
     errs = errorsOf files (fileOutcomes cdn files
            (replicateTitles files (normalizeArrayField parseArray titlesField))
            (replicateCategories files (normalizeArrayField parseArray categoriesField)) m
            [0 ..< length files] db)"
proof -
  let ?b = "uploadLoop cdn files
               (replicateTitles files (normalizeArrayField parseArray titlesField))
               (replicateCategories files (normalizeArrayField parseArray categoriesField)) m 0
               \<lparr>uploadedMedia = [], errors = [], successCount = 0, failedCount = 0, db_after = db\<rparr>"
  have loop: "accountsFor files (length files) (uploadedMedia ?b) (errors ?b) \<and>
         successCount ?b = length (uploadedMedia ?b) \<and>
         failedCount ?b = length (errors ?b) \<and>
         length (uploadedMedia ?b) + length (errors ?b) = length files"
    by (rule uploadLoop_accounts) (simp_all add: accountsFor_start)
  have r: "fst (bulk_upload parseArray cloud_name cdn db files titlesField categoriesField
                    media_type_field) =
        respond 200
           [(''success'', JNum (int (successCount ?b))),
            (''failed'', JNum (int (failedCount ?b))),
            (''uploaded_media'', JUploaded (uploadedMedia ?b)),
            (''errors'', JErrors (errors ?b))]"
    by (simp add: bulk_upload_validated [OF assms] Let_def)
  have outs: "uploadedMedia ?b = uploadedOf (fileOutcomes cdn files
            (replicateTitles files (normalizeArrayField parseArray titlesField))
            (replicateCategories files (normalizeArrayField parseArray categoriesField)) m
            [0 ..< length files] db) \<and>
     errors ?b = errorsOf files (fileOutcomes cdn files
            (replicateTitles files (normalizeArrayField parseArray titlesField))
            (replicateCategories files (normalizeArrayField parseArray categoriesField)) m
            [0 ..< length files] db)"
    using uploadLoop_outcomes [of cdn files
        "replicateTitles files (normalizeArrayField parseArray titlesField)"
        "replicateCategories files (normalizeArrayField parseArray categoriesField)" m 0
        "\<lparr>uploadedMedia = [], errors = [], successCount = 0, failedCount = 0, db_after = db\<rparr>"]
    by simp
  show ?thesis
    unfolding r using loop outs
    by (intro exI [of _ "uploadedMedia ?b"] exI [of _ "errors ?b"])
       (simp add: field_respond status_respond)
qed


theorem bulk_upload_partial_success_200_witness:
  "''demo'' \<noteq> [] \<and> threeFiles \<noteq> [] \<and>
   length (replicateTitles threeFiles
             (normalizeArrayField (\<lambda>s. None) (FieldArray [''A'', ''  '', ''C'']))) =
     length threeFiles \<and>
   length (replicateCategories threeFiles
             (normalizeArrayField (\<lambda>s. None) (FieldArray [''bleach'', ''naruto'', ''One Piece'']))) =
     length threeFiles \<and>
   (let r = fst (bulk_upload (\<lambda>s. None) (Some ''demo'') exampleCdn (Up oddDefaultsTable) threeFiles
                   (FieldArray [''A'', ''  '', ''C''])
                   (FieldArray [''bleach'', ''naruto'', ''One Piece''])
                   (Some ''image''))
    in status r = 200 \<and> field ''success'' r = Some (JNum 1) \<and> field ''failed'' r = Some (JNum 2) \<and>
       field ''errors'' r =
         Some (JErrors [\<lparr>err_filename = ''a.png'', err_index = 0,
                          err_error = ''Invalid category: bleach''\<rparr>,
                        \<lparr>err_filename = ''b.png'', err_index = 1,
                          err_error = ''Title cannot be empty''\<rparr>]) \<and>
       (case field ''uploaded_media'' r of
          Some (JUploaded up) \<Rightarrow>
            map filename up = [''c.png''] \<and>
            accountsFor threeFiles (length threeFiles) up
              [\<lparr>err_filename = ''a.png'', err_index = 0,
                 err_error = ''Invalid category: bleach''\<rparr>,
               \<lparr>err_filename = ''b.png'', err_index = 1,
                 err_error = ''Title cannot be empty''\<rparr>] \<and>
            up = uploadedOf (fileOutcomes exampleCdn threeFiles [''A'', ''  '', ''C'']
                   [''bleach'', ''naruto'', ''One Piece''] ''image'' [0 ..< length threeFiles]
                   (Up oddDefaultsTable))
        | _ \<Rightarrow> False))"
proof -
  let ?r = "fst (bulk_upload (\<lambda>s. None) (Some ''demo'') exampleCdn (Up oddDefaultsTable) threeFiles
                   (FieldArray [''A'', ''  '', ''C''])
                   (FieldArray [''bleach'', ''naruto'', ''One Piece''])
                   (Some ''image''))"
  have h1: "''demo'' \<noteq> []" by simp
  have h2: "threeFiles \<noteq> []" by code_simp
  have h3: "length (replicateTitles threeFiles
             (normalizeArrayField (\<lambda>s. None) (FieldArray [''A'', ''  '', ''C'']))) =
     length threeFiles" by code_simp
  have h4: "length (replicateCategories threeFiles
             (normalizeArrayField (\<lambda>s. None) (FieldArray [''bleach'', ''naruto'', ''One Piece'']))) =
     length threeFiles" by code_simp
  have ts: "replicateTitles threeFiles
             (normalizeArrayField (\<lambda>s. None) (FieldArray [''A'', ''  '', ''C''])) =
            [''A'', ''  '', ''C'']" by code_simp
  have cs: "replicateCategories threeFiles
             (normalizeArrayField (\<lambda>s. None) (FieldArray [''bleach'', ''naruto'', ''One Piece''])) =
            [''bleach'', ''naruto'', ''One Piece'']" by code_simp
  from bulk_upload_partial_success_200 [OF refl h1 h2 h3 h4 refl, of "''image''" exampleCdn
      "Up oddDefaultsTable"]
  obtain up errs where st: "status ?r = 200"
    and u: "field ''uploaded_media'' ?r = Some (JUploaded up)"
    and e: "field ''errors'' ?r = Some (JErrors errs)"
    and acc: "accountsFor threeFiles (length threeFiles) up errs"
    and outs: "up = uploadedOf (fileOutcomes exampleCdn threeFiles [''A'', ''  '', ''C'']
                   [''bleach'', ''naruto'', ''One Piece''] ''image'' [0 ..< length threeFiles]
                   (Up oddDefaultsTable))"
    unfolding ts cs by auto
  have ev: "field ''errors'' ?r =
         Some (JErrors [\<lparr>err_filename = ''a.png'', err_index = 0,
                          err_error = ''Invalid category: bleach''\<rparr>,
                        \<lparr>err_filename = ''b.png'', err_index = 1,
                          err_error = ''Title cannot be empty''\<rparr>])"
    by code_simp
  have names: "(case field ''uploaded_media'' ?r of
                  Some (JUploaded up) \<Rightarrow> map filename up = [''c.png''] | _ \<Rightarrow> False)"
    by code_simp
  have counts: "field ''success'' ?r = Some (JNum 1)" "field ''failed'' ?r = Some (JNum 2)"
    by code_simp+
  from e ev have "errs = [\<lparr>err_filename = ''a.png'', err_index = 0,
                          err_error = ''Invalid category: bleach''\<rparr>,
                        \<lparr>err_filename = ''b.png'', err_index = 1,
                          err_error = ''Title cannot be empty''\<rparr>]" by simp
  with acc u names st ev counts h1 h2 h3 h4 outs show ?thesis
    by (simp add: Let_def)
qed

section \<open>Bulk upload: every created row has no view and is visible\<close>

lemma uploadStep_fresh:
  assumes "rowsOf (db_after b) = base @ new" and "list_all freshRow new"
    and "length new = length (uploadedMedia b)" and "list_all freshItem (uploadedMedia b)"
  shows "\<exists>new'. rowsOf (db_after (uploadStep cdn files titles categories mediaType idx b)) = base @ new' \<and>
           list_all freshRow new' \<and>
           length new' = length (uploadedMedia (uploadStep cdn files titles categories mediaType idx b)) \<and>
           list_all freshItem (uploadedMedia (uploadStep cdn files titles categories mediaType idx b))"
proof (cases "uploadOne cdn files titles categories mediaType idx (db_after b)")
  case (Inl msg)
  with assms show ?thesis by (simp add: uploadStep_def)
next
  case (Inr res)
  obtain item db' where res: "res = (item, db')" by (cases res)
  from Inr res have one: "uploadOne cdn files titles categories mediaType idx (db_after b) = Inr (item, db')"
    by simp
  from uploadOne_Inr(3) [OF one] obtain r where r: "rowsOf db' = rowsOf (db_after b) @ [r]" "freshRow r"
    by blast
  from uploadOne_Inr(2) [OF one] have i: "freshItem item" .
  from r assms i have "rowsOf db' = base @ (new @ [r]) \<and> list_all freshRow (new @ [r]) \<and>
      length (new @ [r]) = length (uploadedMedia b @ [item]) \<and>
      list_all freshItem (uploadedMedia b @ [item])"
    by simp
  with one show ?thesis
    by (simp add: uploadStep_def)
qed

lemma uploadLoop_fresh:
  assumes "\<exists>new. rowsOf (db_after b) = base @ new \<and> list_all freshRow new \<and>
             length new = length (uploadedMedia b) \<and> list_all freshItem (uploadedMedia b)"
  shows "\<exists>new. rowsOf (db_after (uploadLoop cdn files titles categories mediaType idx b)) = base @ new \<and>
           list_all freshRow new \<and>
           length new = length (uploadedMedia (uploadLoop cdn files titles categories mediaType idx b)) \<and>
           list_all freshItem (uploadedMedia (uploadLoop cdn files titles categories mediaType idx b))"
  using assms
proof (induction cdn files titles categories mediaType idx b rule: uploadLoop.induct)
  case (1 cdn files titles categories mediaType idx b)
  show ?case
  proof (cases "idx < length files")
    case True
    then have go: "uploadLoop cdn files titles categories mediaType idx b =
        uploadLoop cdn files titles categories mediaType (idx + 1)
          (uploadStep cdn files titles categories mediaType idx b)"
      by (simp add: uploadLoop.simps [of cdn files titles categories mediaType idx b])
    from "1.prems" obtain new where "rowsOf (db_after b) = base @ new" "list_all freshRow new"
      "length new = length (uploadedMedia b)" "list_all freshItem (uploadedMedia b)"
      by blast
    from uploadStep_fresh [OF this, of cdn files titles categories mediaType idx]
    show ?thesis unfolding go by (rule "1.IH" [OF True])
  next
    case False
    then have stop: "uploadLoop cdn files titles categories mediaType idx b = b"
      by (simp add: uploadLoop.simps [of cdn files titles categories mediaType idx b])
    from "1.prems" show ?thesis unfolding stop .
  qed
qed

lemma bulk_upload_cases:
  "(field ''uploaded_media'' (fst (bulk_upload parseArray cloud_name cdn db files titlesField
        categoriesField media_type_field)) = None \<and>
    snd (bulk_upload parseArray cloud_name cdn db files titlesField categoriesField
        media_type_field) = db) \<or>
   (\<exists>m. bulk_upload parseArray cloud_name cdn db files titlesField categoriesField media_type_field =
       (let b = uploadLoop cdn files
               (replicateTitles files (normalizeArrayField parseArray titlesField))
               (replicateCategories files (normalizeArrayField parseArray categoriesField)) m 0
               \<lparr>uploadedMedia = [], errors = [], successCount = 0, failedCount = 0, db_after = db\<rparr>
        in (respond 200
              [(''success'', JNum (int (successCount b))),
               (''failed'', JNum (int (failedCount b))),
               (''uploaded_media'', JUploaded (uploadedMedia b)),
               (''errors'', JErrors (errors b))],
            db_after b)))"
  by (cases media_type_field) (auto simp: bulk_upload_def Let_def field_respond)

text \<open>
  Claim C10. The insert of the bulk upload names the columns \<open>visible\<close> and \<open>views\<close> and
  gives them \<open>true\<close> and \<open>0\<close>. So, whatever the table held and whatever the defaults of
  its columns are, the upload only appends rows, every appended row has no view and is
  visible, and so has every record the response returns, one for each appended row.
\<close>

theorem bulk_upload_rows_start_visible_unviewed:
  "\<exists>new.
     rowsOf (snd (bulk_upload parseArray cloud_name cdn db files titlesField categoriesField
                    media_type_field)) = rowsOf db @ new \<and>
     list_all freshRow new \<and>
     (case field ''uploaded_media'' (fst (bulk_upload parseArray cloud_name cdn db files titlesField
                    categoriesField media_type_field)) of
        Some (JUploaded up) \<Rightarrow> length up = length new \<and> list_all freshItem up
      | _ \<Rightarrow> new = [])"
proof -
  let ?bulk = "bulk_upload parseArray cloud_name cdn db files titlesField categoriesField media_type_field"
  from bulk_upload_cases [of parseArray cloud_name cdn db files titlesField categoriesField
      media_type_field]
  show ?thesis
  proof (elim disjE conjE exE)
    assume "field ''uploaded_media'' (fst ?bulk) = None" and "snd ?bulk = db"
    then show ?thesis
      by (intro exI [of _ "[]"]) simp
  next
    fix m
    assume loop: "?bulk =
       (let b = uploadLoop cdn files
               (replicateTitles files (normalizeArrayField parseArray titlesField))
               (replicateCategories files (normalizeArrayField parseArray categoriesField)) m 0
               \<lparr>uploadedMedia = [], errors = [], successCount = 0, failedCount = 0, db_after = db\<rparr>
        in (respond 200
              [(''success'', JNum (int (successCount b))),
               (''failed'', JNum (int (failedCount b))),
               (''uploaded_media'', JUploaded (uploadedMedia b)),
               (''errors'', JErrors (errors b))],
            db_after b))"
    let ?b = "uploadLoop cdn files
               (replicateTitles files (normalizeArrayField parseArray titlesField))
               (replicateCategories files (normalizeArrayField parseArray categoriesField)) m 0
               \<lparr>uploadedMedia = [], errors = [], successCount = 0, failedCount = 0, db_after = db\<rparr>"
    have "\<exists>new. rowsOf (db_after ?b) = rowsOf db @ new \<and> list_all freshRow new \<and>
            length new = length (uploadedMedia ?b) \<and> list_all freshItem (uploadedMedia ?b)"
      by (rule uploadLoop_fresh) simp
    then obtain new where new: "rowsOf (db_after ?b) = rowsOf db @ new" "list_all freshRow new"
      "length new = length (uploadedMedia ?b)" "list_all freshItem (uploadedMedia ?b)"
      by blast
    from loop have r: "fst ?bulk = respond 200
              [(''success'', JNum (int (successCount ?b))),
               (''failed'', JNum (int (failedCount ?b))),
               (''uploaded_media'', JUploaded (uploadedMedia ?b)),
               (''errors'', JErrors (errors ?b))]"
      and d: "snd ?bulk = db_after ?b"
      by (simp_all add: Let_def)
    show ?thesis
      unfolding r d using new
      by (intro exI [of _ new]) (simp add: field_respond)
  qed
qed

theorem bulk_upload_rows_start_visible_unviewed_witness:
  "default_views oddDefaultsTable = Some 7 \<and> default_visible oddDefaultsTable = Some False \<and>
   (let R = bulk_upload (\<lambda>s. None) (Some ''demo'') exampleCdn (Up oddDefaultsTable) threeFiles
              (FieldString ''Pic'') (FieldArray [''naruto'', ''bleach'', ''One Piece''])
              (Some ''image'')
    in length (rowsOf (snd R)) = 2 \<and> list_all freshRow (rowsOf (snd R)) \<and>
       (case field ''uploaded_media'' (fst R) of
          Some (JUploaded up) \<Rightarrow> length up = 2 \<and> list_all freshItem up
        | _ \<Rightarrow> False))"
proof -
  let ?R = "bulk_upload (\<lambda>s. None) (Some ''demo'') exampleCdn (Up oddDefaultsTable) threeFiles
              (FieldString ''Pic'') (FieldArray [''naruto'', ''bleach'', ''One Piece''])
              (Some ''image'')"
  have defaults: "default_views oddDefaultsTable = Some 7" "default_visible oddDefaultsTable = Some False"
    by (simp_all add: oddDefaultsTable_def)
  have before: "rowsOf (Up oddDefaultsTable) = []" by code_simp
  have after: "length (rowsOf (snd ?R)) = 2" by code_simp
  have some: "(case field ''uploaded_media'' (fst ?R) of Some (JUploaded up) \<Rightarrow> True | _ \<Rightarrow> False)"
    by code_simp
  from bulk_upload_rows_start_visible_unviewed [of "\<lambda>s. None" "Some ''demo''" exampleCdn
      "Up oddDefaultsTable" threeFiles "FieldString ''Pic''"
      "FieldArray [''naruto'', ''bleach'', ''One Piece'']" "Some ''image''"]
  obtain new where new: "rowsOf (snd ?R) = rowsOf (Up oddDefaultsTable) @ new" "list_all freshRow new"
    "(case field ''uploaded_media'' (fst ?R) of
        Some (JUploaded up) \<Rightarrow> length up = length new \<and> list_all freshItem up
      | _ \<Rightarrow> new = [])"
    by blast
  from new(1) before after have n: "length new = 2" and rows: "rowsOf (snd ?R) = new" by simp_all
  from new(3) some n have "(case field ''uploaded_media'' (fst ?R) of
          Some (JUploaded up) \<Rightarrow> length up = 2 \<and> list_all freshItem up
        | _ \<Rightarrow> False)"
    by (auto split: option.splits jv.splits)
  with defaults after rows new(2) show ?thesis
    by (simp add: Let_def)
qed

end
